theory Spec2Isabelle
  imports Main
begin

text \<open>
  A model of the HTTP front end of the Salesforce MCP server: the header normalizer
  (\<open>getHeaderValue\<close>), the stateless auth resolver (\<open>getAuthContext\<close>,
  \<open>deriveInstanceUrlFromToken\<close>), the auth middleware
  (\<open>salesforceOAuthMiddleware\<close>), and the session registry and liveness timer of
  \<open>startHttpServer\<close>. Of the two copies of \<open>startHttpServer\<close> in the sources the model
  follows the one with the stream and activity maps and the interval timer; the copy
  without them has the same endpoint logic, less the bookkeeping of those two maps.
  State is passed explicitly, what the platform and the SDK decide is a parameter, and a
  thrown exception is a value.
\<close>

section \<open>JavaScript values\<close>

text \<open>
  The request body (\<open>req.body\<close>) and the userinfo response (\<open>await response.json()\<close>)
  are untyped JSON in the source. Numbers are kept as integers: the code only tests
  them for truthiness and never computes with them.
\<close>

datatype jsval =
    JUndefined
  | JNull
  | JBool bool
  | JNum int
  | JStr string
  | JArr "jsval list"
  | JObj "(string \<times> jsval) list"

text \<open>\<open>v ?? d\<close> falls back on \<open>null\<close> and \<open>undefined\<close> only.\<close>

fun nullish :: "jsval \<Rightarrow> bool" where
  "nullish JUndefined = True"
| "nullish JNull = True"
| "nullish _ = False"

definition coalesce :: "jsval \<Rightarrow> jsval \<Rightarrow> jsval" where
  "coalesce v d = (if nullish v then d else v)"

text \<open>\<open>!v\<close> is true on \<open>undefined\<close>, \<open>null\<close>, \<open>false\<close>, \<open>0\<close> and the empty string.\<close>

fun truthy :: "jsval \<Rightarrow> bool" where
  "truthy JUndefined = False"
| "truthy JNull = False"
| "truthy (JBool b) = b"
| "truthy (JNum n) = (n \<noteq> 0)"
| "truthy (JStr s) = (s \<noteq> [])"
| "truthy (JArr _) = True"
| "truthy (JObj _) = True"

text \<open>
  \<open>v.name\<close> for one of the names the source reads (\<open>method\<close>, \<open>id\<close>, \<open>params\<close>,
  \<open>name\<close>, \<open>urls\<close>, \<open>rest\<close>): a TypeError (\<open>None\<close>) on \<open>undefined\<close> and
  \<open>null\<close>, the stored value on an object, \<open>undefined\<close> everywhere else.
  \<open>v?.name\<close> gives \<open>undefined\<close> instead of the TypeError. An object is the list of
  its own properties, each name once.
\<close>

fun js_prop :: "jsval \<Rightarrow> string \<Rightarrow> jsval option" where
  "js_prop JUndefined name = None"
| "js_prop JNull name = None"
| "js_prop (JObj kvs) name = (case map_of kvs name of None \<Rightarrow> Some JUndefined | Some v \<Rightarrow> Some v)"
| "js_prop _ name = Some JUndefined"

definition js_opt_prop :: "jsval \<Rightarrow> string \<Rightarrow> jsval" where
  "js_opt_prop v name = (case js_prop v name of None \<Rightarrow> JUndefined | Some x \<Rightarrow> x)"

section \<open>Header Normalizer\<close>

text \<open>
  A header store is \<open>Record<string, string | string[] | undefined>\<close>.
  Strings are character lists; a header value holds the Latin-1 characters Node delivers.
\<close>

datatype header_value = Single string | Multi "string list"

type_synonym header_store = "string \<rightharpoonup> header_value"

text \<open>
  \<^verbatim>\<open>const value = headers[name];
  if (!value) return undefined;
  return Array.isArray(value) ? value[0] : value;\<close>
  The empty string is falsy; an array never is, and \<open>[][0]\<close> is \<open>undefined\<close>.
\<close>

fun getHeaderValue :: "header_store \<Rightarrow> string \<Rightarrow> string option" where
  "getHeaderValue headers name =
     (case headers name of
        None \<Rightarrow> None
      | Some (Single s) \<Rightarrow> (if s = [] then None else Some s)
      | Some (Multi xs) \<Rightarrow> (case xs of [] \<Rightarrow> None | x # _ \<Rightarrow> Some x))"

section \<open>String helpers\<close>

text \<open>\<open>s.startsWith(p)\<close> and \<open>s.substring(n)\<close> (which is \<open>drop n\<close>).\<close>

definition startsWith :: "string \<Rightarrow> string \<Rightarrow> bool" where
  "startsWith s p = (take (length p) s = p)"

text \<open>
  \<open>s.trim()\<close> removes white space and line terminators from both ends. Among the
  Latin-1 characters these are TAB, LF, VT, FF, CR, SPACE and NBSP.
\<close>

definition js_whitespace :: "char \<Rightarrow> bool" where
  "js_whitespace c = ((of_char c :: nat) \<in> {9, 10, 11, 12, 13, 32, 160})"

definition js_trim :: "string \<Rightarrow> string" where
  "js_trim s = rev (dropWhile js_whitespace (rev (dropWhile js_whitespace s)))"

section \<open>Auth Context Resolver\<close>

record SalesforceAuthContext =
  accessToken :: string
  instanceUrl :: "string option"
  userId :: "string option"

text \<open>
  The userinfo endpoint is outside the program. A call either fails at the network
  level (\<open>fetch\<close> rejects) or returns a response with a status and a body;
  \<open>response.json()\<close> rejects on a body that is not JSON (\<open>None\<close>).
  \<open>response.ok\<close> is the Fetch standard's test for a status in 200..299.
\<close>

record fetch_response =
  resp_status :: nat
  resp_json :: "jsval option"

datatype fetch_outcome = NetworkError | Response fetch_response

definition response_ok :: "fetch_response \<Rightarrow> bool" where
  "response_ok r = (200 \<le> resp_status r \<and> resp_status r \<le> 299)"

text \<open>
  The two fields the source reads from the platform's \<open>URL\<close> object. The constructor
  \<open>new URL(v)\<close> is a parameter of the model: it converts its argument to a string,
  parses it, and throws (\<open>None\<close>) on an invalid URL.
\<close>

record url =
  url_protocol :: string
  url_host :: string

type_synonym url_constructor = "jsval \<Rightarrow> url option"

text \<open>
  The endpoint is a function from the access token sent in the \<open>Authorization\<close>
  header to the outcome of the call. Every call made is appended to a log of the access
  tokens sent, which is threaded through the resolver: the length of the log counts
  the network calls.
\<close>

type_synonym endpoint = "string \<Rightarrow> fetch_outcome"

definition deriveInstanceUrlFromToken ::
    "url_constructor \<Rightarrow> endpoint \<Rightarrow> string list \<Rightarrow> string \<Rightarrow> string option \<times> string list" where
  "deriveInstanceUrlFromToken newURL userinfo calls token =
     (let calls' = calls @ [token] in
      case userinfo token of
        NetworkError \<Rightarrow> (None, calls')
      | Response response \<Rightarrow>
          if \<not> response_ok response then (None, calls')
          else (case resp_json response of
                  None \<Rightarrow> (None, calls')
                | Some userInfo \<Rightarrow>
                    (case js_prop userInfo ''urls'' of
                       None \<Rightarrow> (None, calls')
                     | Some urls \<Rightarrow>
                         (let restUrl = js_opt_prop urls ''rest'' in
                          if \<not> truthy restUrl then (None, calls')
                          else (case newURL restUrl of
                                  None \<Rightarrow> (None, calls')
                                | Some u \<Rightarrow>
                                    (Some (url_protocol u @ ''//'' @ url_host u), calls'))))))"

text \<open>
  \<open>getAuthContext(extra)\<close>; its argument is \<open>extra?.requestInfo?.headers\<close>,
  \<open>None\<close> when any link of that chain is missing.
\<close>

definition getAuthContext ::
    "url_constructor \<Rightarrow> endpoint \<Rightarrow> string list \<Rightarrow> header_store option
      \<Rightarrow> SalesforceAuthContext option \<times> string list" where
  "getAuthContext newURL userinfo calls headers =
     (case headers of
        None \<Rightarrow> (None, calls)
      | Some hs \<Rightarrow>
          (case getHeaderValue hs ''authorization'' of
             None \<Rightarrow> (None, calls)
           | Some authHeader \<Rightarrow>
               if authHeader = [] \<or> \<not> startsWith authHeader ''Bearer '' then (None, calls)
               else
                 (let token = js_trim (drop 7 authHeader) in
                  if token = [] then (None, calls)
                  else
                    (let fromHeader = getHeaderValue hs ''x-salesforce-instance-url'' in
                     if fromHeader = None \<or> fromHeader = Some [] then
                       (case deriveInstanceUrlFromToken newURL userinfo calls token of
                          (None, calls') \<Rightarrow> (None, calls')
                        | (Some derived, calls') \<Rightarrow>
                            if derived = [] then (None, calls')
                            else (Some \<lparr>accessToken = token, instanceUrl = Some derived,
                                        userId = None\<rparr>, calls'))
                     else (Some \<lparr>accessToken = token, instanceUrl = fromHeader,
                                 userId = None\<rparr>, calls)))))"

section \<open>Auth Gate\<close>

text \<open>
  A protocol-level error as written by \<open>res.status(n).json({jsonrpc: '2.0',
  error: {code, message, data}, id})\<close>. \<open>err_data\<close> is only set by the error boundary
  of the endpoint, to the message of what was thrown.
\<close>

datatype thrown = TypeError | Thrown string

record error_response =
  http_status :: nat
  jsonrpc :: string
  err_code :: int
  err_message :: string
  err_data :: "thrown option"
  resp_id :: jsval

definition rpc_error :: "nat \<Rightarrow> int \<Rightarrow> string \<Rightarrow> jsval \<Rightarrow> error_response" where
  "rpc_error st c msg i =
     \<lparr>http_status = st, jsonrpc = ''2.0'', err_code = c, err_message = msg,
      err_data = None, resp_id = i\<rparr>"

text \<open>The three rejections of the gate, in the order of the source.\<close>

definition missingCredential :: "jsval \<Rightarrow> error_response" where
  "missingCredential requestId =
     rpc_error 401 (- 32000)
       ''Missing Authorization header. Please authenticate with Salesforce.'' requestId"

definition malformedCredential :: "jsval \<Rightarrow> error_response" where
  "malformedCredential requestId =
     rpc_error 401 (- 32000)
       (''Invalid Authorization header format. Expected '' @ [CHR 0x22] @ ''Bearer <token>''
          @ [CHR 0x22] @ ''.'') requestId"

definition emptyCredential :: "jsval \<Rightarrow> error_response" where
  "emptyCredential requestId = rpc_error 401 (- 32000) ''Empty access token'' requestId"

text \<open>
  An HTTP request as the endpoint sees it: \<open>req.method\<close>, \<open>req.headers\<close> (names in
  lower case), \<open>req.body\<close> after \<open>express.json()\<close> (\<open>JUndefined\<close> when no body was
  parsed), and the response object \<open>res\<close>, which is the event stream of a \<open>GET\<close>.
\<close>

datatype stream = Stream nat

record request =
  req_method :: string
  req_headers :: header_store
  req_body :: jsval
  req_res :: stream

definition skipAuthMethods :: "string list" where
  "skipAuthMethods = [''ping'', ''initialize'']"

text \<open>\<open>req.body?.id ?? 'unknown'\<close>\<close>

definition requestId :: "request \<Rightarrow> jsval" where
  "requestId req = coalesce (js_opt_prop (req_body req) ''id'') (JStr ''unknown'')"

text \<open>
  The middleware either calls \<open>next()\<close>, with \<open>req.salesforceAuth\<close> set or left unset,
  or answers itself. \<open>skipAuthMethods.includes(method)\<close> holds only of the two strings.
\<close>

datatype gate = Next "SalesforceAuthContext option" | Reject error_response

definition salesforceOAuthMiddleware :: "request \<Rightarrow> gate" where
  "salesforceOAuthMiddleware req =
     (if req_method req = ''GET'' then Next None
      else
        (let method = js_opt_prop (req_body req) ''method'' in
         if method \<in> JStr ` set skipAuthMethods then Next None
         else
           (case getHeaderValue (req_headers req) ''authorization'' of
              None \<Rightarrow> Reject (missingCredential (requestId req))
            | Some authHeader \<Rightarrow>
                if authHeader = [] then Reject (missingCredential (requestId req))
                else if \<not> startsWith authHeader ''Bearer '' then
                  Reject (malformedCredential (requestId req))
                else
                  (let token = js_trim (drop 7 authHeader) in
                   if token = [] then Reject (emptyCredential (requestId req))
                   else
                     (let fromHeader = getHeaderValue (req_headers req) ''x-salesforce-instance-url''
                      in Next (Some \<lparr>accessToken = token,
                                      instanceUrl = (if fromHeader = Some [] then None else fromHeader),
                                      userId = None\<rparr>))))))"

section \<open>Session Registry\<close>

text \<open>
  The four process-wide \<open>Map\<close>s. A JavaScript \<open>Map\<close> keeps its entries in insertion
  order, one per key: \<open>set\<close> on a key that is present replaces the value in place,
  \<open>set\<close> on a new key appends, \<open>delete\<close> on a missing key does nothing and does not
  throw.
\<close>

type_synonym 'v jsmap = "(string \<times> 'v) list"

definition Map_get :: "'v jsmap \<Rightarrow> string \<Rightarrow> 'v option" where
  "Map_get m k = map_of m k"

definition Map_has :: "'v jsmap \<Rightarrow> string \<Rightarrow> bool" where
  "Map_has m k = (map_of m k \<noteq> None)"

fun Map_set :: "'v jsmap \<Rightarrow> string \<Rightarrow> 'v \<Rightarrow> 'v jsmap" where
  "Map_set [] k v = [(k, v)]"
| "Map_set ((k', v') # m) k v = (if k' = k then (k, v) # m else (k', v') # Map_set m k v)"

definition Map_delete :: "'v jsmap \<Rightarrow> string \<Rightarrow> 'v jsmap" where
  "Map_delete m k = filter (\<lambda>e. fst e \<noteq> k) m"

datatype transport = Transport nat

datatype server = Server nat

record registry =
  transports :: "transport jsmap"
  mcpServers :: "server jsmap"
  sseStreams :: "stream jsmap"
  sessionActivity :: "int jsmap"

definition empty_registry :: registry where
  "empty_registry = \<lparr>transports = [], mcpServers = [], sseStreams = [], sessionActivity = []\<rparr>"

text \<open>
  \<open>onsessioninitialized\<close>: the transport calls it once the handshake has produced the
  new session id. \<open>created\<close> is the result of \<open>createMcpServer\<close> (\<open>None\<close> when the
  cache writes or the creation throw, before any map is written); \<open>now\<close> is
  \<open>Date.now()\<close>.
\<close>

definition onsessioninitialized ::
    "string \<Rightarrow> server option \<Rightarrow> transport \<Rightarrow> int \<Rightarrow> registry \<Rightarrow> registry" where
  "onsessioninitialized newSessionId created tr now st =
     (case created of
        None \<Rightarrow> st
      | Some srv \<Rightarrow>
          st\<lparr>mcpServers := Map_set (mcpServers st) newSessionId srv,
             transports := Map_set (transports st) newSessionId tr,
             sessionActivity := Map_set (sessionActivity st) newSessionId now\<rparr>)"

text \<open>
  The teardowns. \<open>onsessionclosed\<close>, the \<open>close\<close> handler of an event stream and the
  \<open>DELETE\<close> branch each delete the session id from the four maps.
\<close>

definition onsessionclosed :: "string \<Rightarrow> registry \<Rightarrow> registry" where
  "onsessionclosed closedSessionId st =
     st\<lparr>transports := Map_delete (transports st) closedSessionId,
        mcpServers := Map_delete (mcpServers st) closedSessionId,
        sseStreams := Map_delete (sseStreams st) closedSessionId,
        sessionActivity := Map_delete (sessionActivity st) closedSessionId\<rparr>"

definition stream_closed :: "string \<Rightarrow> registry \<Rightarrow> registry" where
  "stream_closed sessionId st =
     (let st1 = st\<lparr>sseStreams := Map_delete (sseStreams st) sessionId\<rparr>
      in st1\<lparr>transports := Map_delete (transports st1) sessionId,
             mcpServers := Map_delete (mcpServers st1) sessionId,
             sessionActivity := Map_delete (sessionActivity st1) sessionId\<rparr>)"

definition delete_cleanup :: "string \<Rightarrow> registry \<Rightarrow> registry" where
  "delete_cleanup sessionId st =
     st\<lparr>transports := Map_delete (transports st) sessionId,
        mcpServers := Map_delete (mcpServers st) sessionId,
        sseStreams := Map_delete (sseStreams st) sessionId,
        sessionActivity := Map_delete (sessionActivity st) sessionId\<rparr>"

section \<open>The RPC endpoint\<close>

text \<open>
  \<open>const sessionId = req.headers['mcp-session-id'] as string | undefined\<close>.
  \<open>session_given\<close> is the truthiness of \<open>sessionId\<close>; \<open>session_key\<close> is the string that
  can be a key of the maps. A list-valued header is truthy and equal to no key.
\<close>

fun session_given :: "header_value option \<Rightarrow> bool" where
  "session_given None = False"
| "session_given (Some (Single s)) = (s \<noteq> [])"
| "session_given (Some (Multi xs)) = True"

fun session_key :: "header_value option \<Rightarrow> string option" where
  "session_key (Some (Single s)) = (if s = [] then None else Some s)"
| "session_key _ = None"

definition sessionRequired :: "jsval \<Rightarrow> error_response" where
  "sessionRequired i = rpc_error 400 (- 32000) ''Initialize request required to create session'' i"

definition invalidSession :: "jsval \<Rightarrow> error_response" where
  "invalidSession i = rpc_error 400 (- 32000) ''Invalid or missing session ID'' i"

definition internalError :: "thrown \<Rightarrow> jsval \<Rightarrow> error_response" where
  "internalError e i = (rpc_error 500 (- 32603) ''Internal error'' i)\<lparr>err_data := Some e\<rparr>"

text \<open>
  What \<open>transport.handleRequest(req, res, req.body)\<close> does is the transport's business:
  it completes, or it throws, before or after the response headers were sent.
\<close>

datatype handled = Completed | Threw string bool

text \<open>
  The outcome of the endpoint for one request: an error written by the endpoint itself,
  the request handed to a transport that completed it, or nothing written by the endpoint
  (the transport threw after the headers were sent).
\<close>

datatype outcome = Replied error_response | Dispatched transport | Unanswered

text \<open>
  The bookkeeping between the session checks and the hand-over to the transport.
  It is reached with a falsy \<open>sessionId\<close> (a new session) or with one that is a key of
  \<open>transports\<close>.
\<close>

definition track :: "int \<Rightarrow> request \<Rightarrow> registry \<Rightarrow> registry" where
  "track now req st =
     (let sessionId = session_key (req_headers req ''mcp-session-id'') in
      if req_method req = ''POST'' \<and> truthy (js_opt_prop (req_body req) ''method'') then
        (case sessionId of
           None \<Rightarrow> st
         | Some sid \<Rightarrow> st\<lparr>sessionActivity := Map_set (sessionActivity st) sid now\<rparr>)
      else if req_method req = ''GET'' then
        (case sessionId of
           None \<Rightarrow> st
         | Some sid \<Rightarrow>
             st\<lparr>sseStreams := Map_set (sseStreams st) sid (req_res req),
                sessionActivity := Map_set (sessionActivity st) sid now\<rparr>)
      else if req_method req = ''DELETE'' then
        (case sessionId of
           None \<Rightarrow> st
         | Some sid \<Rightarrow> delete_cleanup sid st)
      else st)"

definition hand_over ::
    "(transport \<Rightarrow> request \<Rightarrow> handled) \<Rightarrow> transport \<Rightarrow> int \<Rightarrow> request \<Rightarrow> registry
      \<Rightarrow> outcome \<times> registry" where
  "hand_over handleRequest tr now req st =
     (let st' = track now req st in
      case handleRequest tr req of
        Completed \<Rightarrow> (Dispatched tr, st')
      | Threw msg headersSent \<Rightarrow>
          if headersSent then (Unanswered, st')
          else (Replied (internalError (Thrown msg)
                           (coalesce (js_opt_prop (req_body req) ''id'') JNull)), st'))"

text \<open>
  \<open>app.all('/mcp', ...)\<close>. \<open>fresh\<close> is the transport object that
  \<open>new StreamableHTTPServerTransport(...)\<close> creates for an initialize request; it is
  entered into the maps only by \<open>onsessioninitialized\<close>. \<open>body.method\<close> on a missing
  body throws a TypeError, which the error boundary answers.
\<close>

definition mcp_endpoint ::
    "(transport \<Rightarrow> request \<Rightarrow> handled) \<Rightarrow> transport \<Rightarrow> int \<Rightarrow> request \<Rightarrow> registry
      \<Rightarrow> outcome \<times> registry" where
  "mcp_endpoint handleRequest fresh now req st =
     (let sessionId = req_headers req ''mcp-session-id'';
          found = (if session_given sessionId
                   then (case session_key sessionId of
                           None \<Rightarrow> None
                         | Some sid \<Rightarrow> Map_get (transports st) sid)
                   else None)
      in
      if \<not> session_given sessionId \<and> req_method req = ''POST'' then
        (case js_prop (req_body req) ''method'' of
           None \<Rightarrow>
             (Replied (internalError TypeError
                         (coalesce (js_opt_prop (req_body req) ''id'') JNull)), st)
         | Some method \<Rightarrow>
             if method = JStr ''initialize'' then hand_over handleRequest fresh now req st
             else (Replied (sessionRequired
                              (coalesce (js_opt_prop (req_body req) ''id'') JNull)), st))
      else
        (case found of
           None \<Rightarrow>
             (Replied (invalidSession (coalesce (js_opt_prop (req_body req) ''id'') JNull)), st)
         | Some tr \<Rightarrow> hand_over handleRequest tr now req st))"

text \<open>
  \<open>app.use('/mcp', salesforceOAuthMiddleware)\<close> runs before the endpoint. A request
  here is one that the middleware registered before the gate (\<open>helmet\<close>, \<open>cors\<close>,
  \<open>express.json\<close>, the request logger) has passed on, with \<open>req.body\<close> as
  \<open>express.json\<close> left it.
\<close>

definition serve_mcp ::
    "(transport \<Rightarrow> request \<Rightarrow> handled) \<Rightarrow> transport \<Rightarrow> int \<Rightarrow> request \<Rightarrow> registry
      \<Rightarrow> outcome \<times> registry" where
  "serve_mcp handleRequest fresh now req st =
     (case salesforceOAuthMiddleware req of
        Reject r \<Rightarrow> (Replied r, st)
      | Next ctx \<Rightarrow> mcp_endpoint handleRequest fresh now req st)"

section \<open>Liveness Manager\<close>

text \<open>
  \<open>stream.write(keepaliveComment)\<close> returns true, returns false (backpressure), or
  throws; which of the three is decided by the stream.
\<close>

datatype write_result = Written | Backpressure | WriteThrows

text \<open>
  The body of the keepalive loop for one entry of \<open>sseStreams\<close>. Only the \<open>catch\<close>
  block changes a map; both other branches log.
\<close>

definition keepalive_entry :: "(stream \<Rightarrow> write_result) \<Rightarrow> registry \<Rightarrow> string \<times> stream \<Rightarrow> registry" where
  "keepalive_entry write st e =
     (case write (snd e) of
        Written \<Rightarrow> st
      | Backpressure \<Rightarrow> st
      | WriteThrows \<Rightarrow>
          st\<lparr>sseStreams := Map_delete (sseStreams st) (fst e),
             sessionActivity := Map_delete (sessionActivity st) (fst e)\<rparr>)"

text \<open>
  \<open>for (const [sessionId, stream] of sseStreams.entries())\<close>. The body deletes at most
  the entry it is visiting, so the loop visits the entries the map had when it started.
\<close>

definition keepalive_sweep :: "(stream \<Rightarrow> write_result) \<Rightarrow> registry \<Rightarrow> registry" where
  "keepalive_sweep write st = foldl (keepalive_entry write) st (sseStreams st)"

definition sessionTtlMs :: int where
  "sessionTtlMs = 5 * 60 * 1000"

text \<open>
  The body of the prune loop for one entry of \<open>sessionActivity\<close>. Each teardown is
  recorded with the three flags the source computes (\<open>hadTransport\<close>, \<open>hadServer\<close>,
  \<open>hadStream\<close>, the results of the deletes).
\<close>

record pruned =
  pruned_id :: string
  hadTransport :: bool
  hadServer :: bool
  hadStream :: bool

definition prune_entry :: "int \<Rightarrow> registry \<times> pruned list \<Rightarrow> string \<times> int \<Rightarrow> registry \<times> pruned list" where
  "prune_entry now acc e =
     (let st = fst acc; sessionId = fst e; lastSeen = snd e in
      if now - lastSeen > sessionTtlMs then
        (st\<lparr>transports := Map_delete (transports st) sessionId,
            mcpServers := Map_delete (mcpServers st) sessionId,
            sseStreams := Map_delete (sseStreams st) sessionId,
            sessionActivity := Map_delete (sessionActivity st) sessionId\<rparr>,
         snd acc @ [\<lparr>pruned_id = sessionId,
                     hadTransport = Map_has (transports st) sessionId,
                     hadServer = Map_has (mcpServers st) sessionId,
                     hadStream = Map_has (sseStreams st) sessionId\<rparr>])
      else acc)"

definition prune_sweep :: "int \<Rightarrow> registry \<Rightarrow> registry \<times> pruned list" where
  "prune_sweep now st = foldl (prune_entry now) (st, []) (sessionActivity st)"

text \<open>
  One firing of the \<open>setInterval\<close> callback: the keepalive loop, then the prune loop
  with \<open>now = Date.now()\<close>.
\<close>

definition tick :: "(stream \<Rightarrow> write_result) \<Rightarrow> int \<Rightarrow> registry \<Rightarrow> registry \<times> pruned list" where
  "tick write now st = prune_sweep now (keepalive_sweep write st)"

section \<open>The registry over time\<close>

text \<open>
  Everything that writes the four maps runs on one thread, one callback at a time: a
  firing of the interval timer, a request to the endpoint, and the three callbacks
  (\<open>onsessioninitialized\<close>, \<open>onsessionclosed\<close>, the \<open>close\<close> event of a stream).
\<close>

datatype event =
    Tick "stream \<Rightarrow> write_result" int
  | Request "transport \<Rightarrow> request \<Rightarrow> handled" transport int request
  | Initialized string "server option" transport int
  | SessionClosed string
  | StreamClosed string

fun step :: "event \<Rightarrow> registry \<Rightarrow> registry" where
  "step (Tick write now) st = fst (tick write now st)"
| "step (Request handleRequest fresh now req) st = snd (serve_mcp handleRequest fresh now req st)"
| "step (Initialized newSessionId created tr now) st =
     onsessioninitialized newSessionId created tr now st"
| "step (SessionClosed sid) st = onsessionclosed sid st"
| "step (StreamClosed sid) st = stream_closed sid st"

definition run :: "event list \<Rightarrow> registry \<Rightarrow> registry" where
  "run evs st = foldl (\<lambda>s ev. step ev s) st evs"




definition wf_registry :: "registry \<Rightarrow> bool" where
  "wf_registry st \<longleftrightarrow>
     distinct (map fst (transports st)) \<and> distinct (map fst (mcpServers st)) \<and>
     distinct (map fst (sseStreams st)) \<and> distinct (map fst (sessionActivity st))"

section \<open>Example inputs\<close>

text \<open>
  A stand-in for the platform's URL constructor on the URLs of the examples: a string
  \<open>scheme://host\<close> followed by nothing or by a path, query or fragment.
\<close>

fun exampleURL :: url_constructor where
  "exampleURL (JStr s) =
     (let scheme = takeWhile (\<lambda>c. c \<noteq> CHR '':'') s;
          rest = drop (length scheme) s;
          host = takeWhile (\<lambda>c. c \<noteq> CHR ''/'' \<and> c \<noteq> CHR ''?'' \<and> c \<noteq> CHR ''#'') (drop 3 rest)
      in if scheme \<noteq> [] \<and> take 3 rest = ''://'' \<and> host \<noteq> []
         then Some \<lparr>url_protocol = scheme @ '':'', url_host = host\<rparr>
         else None)"
| "exampleURL _ = None"

text \<open>Stub endpoints: one that is down, one that answers 200 with a userinfo document.\<close>

definition endpoint_down :: endpoint where
  "endpoint_down token = NetworkError"

definition endpoint_foo :: endpoint where
  "endpoint_foo token =
     Response \<lparr>resp_status = 200,
               resp_json = Some (JObj [(''user_id'', JStr ''005''),
                 (''urls'', JObj [(''rest'',
                    JStr ''https://foo.example.com/services/data/v60.0/'')])])\<rparr>"

text \<open>Requests used in the examples below.\<close>

definition post_request :: "header_store \<Rightarrow> jsval \<Rightarrow> request" where
  "post_request hs b = \<lparr>req_method = ''POST'', req_headers = hs, req_body = b, req_res = Stream 0\<rparr>"

definition rpc_call :: "string \<Rightarrow> int \<Rightarrow> jsval" where
  "rpc_call m i = JObj [(''jsonrpc'', JStr ''2.0''), (''method'', JStr m), (''id'', JNum i)]"

definition hs_bearer :: header_store where
  "hs_bearer = [''authorization'' \<mapsto> Single ''Bearer abc'']"

definition hs_bearer_empty_instance :: header_store where
  "hs_bearer_empty_instance =
     [''authorization'' \<mapsto> Single ''Bearer abc'', ''x-salesforce-instance-url'' \<mapsto> Single '''']"

definition hs_bearer_instance :: header_store where
  "hs_bearer_instance =
     [''authorization'' \<mapsto> Single ''Bearer abc'',
      ''x-salesforce-instance-url'' \<mapsto> Single ''https://na1.salesforce.com/x'']"

definition req_no_body :: request where
  "req_no_body = post_request Map.empty JUndefined"

definition req_empty_credential_header :: request where
  "req_empty_credential_header =
     post_request [''authorization'' \<mapsto> Single ''''] (rpc_call ''tools/list'' 7)"

definition req_basic_scheme :: request where
  "req_basic_scheme =
     post_request [''authorization'' \<mapsto> Single ''Basic abc''] (rpc_call ''tools/list'' 7)"

definition req_blank_token :: request where
  "req_blank_token =
     post_request [''authorization'' \<mapsto> Single ''Bearer   ''] (rpc_call ''tools/list'' 7)"

definition transport_ok :: "transport \<Rightarrow> request \<Rightarrow> handled" where
  "transport_ok tr req = Completed"

definition req_unparsed :: request where
  "req_unparsed = post_request Map.empty JUndefined"

definition req_stale_get :: request where
  "req_stale_get =
     \<lparr>req_method = ''GET'', req_headers = [''mcp-session-id'' \<mapsto> Single ''stale''],
      req_body = JUndefined, req_res = Stream 0\<rparr>"

definition req_ping_no_session :: request where
  "req_ping_no_session = post_request Map.empty (rpc_call ''ping'' 1)"

definition req_initialize :: request where
  "req_initialize = post_request Map.empty (rpc_call ''initialize'' 0)"

definition req_stale_initialize :: request where
  "req_stale_initialize =
     post_request [''mcp-session-id'' \<mapsto> Single ''stale''] (rpc_call ''initialize'' 0)"

definition write_backpressure :: "stream \<Rightarrow> write_result" where
  "write_backpressure s = Backpressure"

definition write_throws :: "stream \<Rightarrow> write_result" where
  "write_throws s = WriteThrows"

definition registry_one :: registry where
  "registry_one =
     \<lparr>transports = [(''s1'', Transport 1)], mcpServers = [(''s1'', Server 1)],
      sseStreams = [(''s1'', Stream 1)], sessionActivity = [(''s1'', 1000)]\<rparr>"

definition req_delete :: "string \<Rightarrow> request" where
  "req_delete sid =
     \<lparr>req_method = ''DELETE'', req_headers = [''mcp-session-id'' \<mapsto> Single sid],
      req_body = JUndefined, req_res = Stream 0\<rparr>"



definition req_stale_list :: request where
  "req_stale_list =
     post_request [''mcp-session-id'' \<mapsto> Single ''stale''] (rpc_call ''tools/list'' 7)"

definition req_stale_list_bearer :: request where
  "req_stale_list_bearer =
     post_request [''authorization'' \<mapsto> Single ''Bearer abc'', ''mcp-session-id'' \<mapsto> Single ''stale'']
       (rpc_call ''tools/list'' 7)"





section \<open>Header Normalizer: results\<close>

text \<open>
  C4 (as stated, refuted): a header holding the single string value \<open>''''\<close> is
  normalized to absent, not to that value.
\<close>

theorem C4_counterexample:
  "getHeaderValue [''authorization'' \<mapsto> Single ''''] ''authorization'' \<noteq> Some ''''"
  by simp

text \<open>
  C4 (amended): normalization is a function of the store and the name alone; an absent
  header gives absent; a single string gives that string when it is non-empty and absent
  when it is empty; a list gives its first element, and absent when the list is empty.
\<close>

theorem C4_getHeaderValue_cases:
  "(headers name = None \<longrightarrow> getHeaderValue headers name = None) \<and>
   (headers name = Some (Single s) \<longrightarrow>
      getHeaderValue headers name = (if s = [] then None else Some s)) \<and>
   (headers name = Some (Multi (x # xs)) \<longrightarrow> getHeaderValue headers name = Some x) \<and>
   (headers name = Some (Multi []) \<longrightarrow> getHeaderValue headers name = None)"
  by simp

theorem C4_getHeaderValue_cases_witness:
  "getHeaderValue Map.empty ''accept'' = None \<and>
   getHeaderValue [''accept'' \<mapsto> Single ''text/html''] ''accept'' = Some ''text/html'' \<and>
   getHeaderValue [''accept'' \<mapsto> Multi [''a'', ''b'']] ''accept'' = Some ''a'' \<and>
   getHeaderValue [''accept'' \<mapsto> Multi []] ''accept'' = None"
  using C4_getHeaderValue_cases [of Map.empty "''accept''" "''x''" "''a''" "[''b'']"]
        C4_getHeaderValue_cases [of "[''accept'' \<mapsto> Single ''text/html'']" "''accept''" "''text/html''" "''a''" "[''b'']"]
        C4_getHeaderValue_cases [of "[''accept'' \<mapsto> Multi [''a'', ''b'']]" "''accept''" "''x''" "''a''" "[''b'']"]
        C4_getHeaderValue_cases [of "[''accept'' \<mapsto> Multi []]" "''accept''" "''x''" "''a''" "[''b'']"]
  by simp

section \<open>Auth Context Resolver: results\<close>

declare getHeaderValue.simps [simp del]

lemma startsWith_nonempty: "startsWith h ''Bearer '' \<Longrightarrow> h \<noteq> []"
  by (auto simp: startsWith_def)

lemma derive_calls:
  "snd (deriveInstanceUrlFromToken newURL userinfo calls token) = calls @ [token]"
  by (simp add: deriveInstanceUrlFromToken_def Let_def
      split: fetch_outcome.splits option.splits)

lemma derive_success:
  assumes "userinfo token = Response r" and "response_ok r" and "resp_json r = Some doc"
    and "js_opt_prop (js_opt_prop doc ''urls'') ''rest'' = v" and "truthy v"
    and "newURL v = Some u"
  shows "fst (deriveInstanceUrlFromToken newURL userinfo calls token)
           = Some (url_protocol u @ ''//'' @ url_host u)"
proof -
  from assms(4,5) obtain urls where "js_prop doc ''urls'' = Some urls"
    by (cases "js_prop doc ''urls''") (auto simp: js_opt_prop_def)
  with assms show ?thesis
    by (simp add: deriveInstanceUrlFromToken_def Let_def js_opt_prop_def)
qed

lemma derive_failure:
  assumes "userinfo token = NetworkError \<or>
           (\<exists>r. userinfo token = Response r \<and>
              (\<not> response_ok r \<or> resp_json r = None \<or>
               (\<exists>doc. resp_json r = Some doc \<and>
                  (\<not> truthy (js_opt_prop (js_opt_prop doc ''urls'') ''rest'') \<or>
                   newURL (js_opt_prop (js_opt_prop doc ''urls'') ''rest'') = None))))"
  shows "fst (deriveInstanceUrlFromToken newURL userinfo calls token) = None"
  using assms
  by (auto simp: deriveInstanceUrlFromToken_def Let_def js_opt_prop_def
      split: fetch_outcome.splits option.splits)

lemma resolve_slow:
  assumes "getHeaderValue hs ''authorization'' = Some h" and "startsWith h ''Bearer ''"
    and "js_trim (drop 7 h) = token" and "token \<noteq> []"
    and "getHeaderValue hs ''x-salesforce-instance-url'' = None \<or>
         getHeaderValue hs ''x-salesforce-instance-url'' = Some []"
  shows "getAuthContext newURL userinfo calls (Some hs) =
           (case deriveInstanceUrlFromToken newURL userinfo calls token of
              (None, calls') \<Rightarrow> (None, calls')
            | (Some derived, calls') \<Rightarrow>
                if derived = [] then (None, calls')
                else (Some \<lparr>accessToken = token, instanceUrl = Some derived, userId = None\<rparr>, calls'))"
  using assms startsWith_nonempty [OF assms(2)]
  by (auto simp: getAuthContext_def Let_def)

lemma resolve_no_credential:
  assumes "getHeaderValue hs ''authorization'' = None \<or>
           (\<exists>h. getHeaderValue hs ''authorization'' = Some h \<and>
              (\<not> startsWith h ''Bearer '' \<or> js_trim (drop 7 h) = []))"
  shows "getAuthContext newURL userinfo calls (Some hs) = (None, calls)"
  using assms by (auto simp: getAuthContext_def Let_def)

lemma derive_nonempty:
  "fst (deriveInstanceUrlFromToken newURL userinfo calls token) = Some e \<Longrightarrow> e \<noteq> []"
  by (auto simp: deriveInstanceUrlFromToken_def Let_def
      split: fetch_outcome.splits option.splits if_splits)

text \<open>
  C5: the derivation of the endpoint from the token, which resolution runs when the
  resource-endpoint header is absent, makes exactly one call to the introspection
  endpoint (the log of calls grows by the one token). If the call returns a 2xx status
  and a JSON body whose \<open>urls.rest\<close> is
  \<open>https://foo.example.com/services/data/v60.0/\<close>, which the URL constructor parses to
  the protocol \<open>https:\<close> and the host \<open>foo.example.com\<close>, the result is
  \<open>https://foo.example.com\<close>: protocol and host only, as for every URL the constructor
  accepts. A network failure, a status outside 200..299, a body that is not JSON or a
  missing \<open>urls.rest\<close> gives no endpoint. With a valid bearer credential and no
  resource-endpoint header, resolution returns the context with that endpoint, or no
  context when there is no endpoint, and the one call is the only one.
\<close>

theorem C5_slow_path:
  assumes "d = deriveInstanceUrlFromToken newURL userinfo calls token"
  shows "snd d = calls @ [token] \<and>
         (\<forall>r doc u.
            userinfo token = Response r \<and> 200 \<le> resp_status r \<and> resp_status r \<le> 299 \<and>
            resp_json r = Some doc \<and>
            js_opt_prop (js_opt_prop doc ''urls'') ''rest''
              = JStr ''https://foo.example.com/services/data/v60.0/'' \<and>
            newURL (JStr ''https://foo.example.com/services/data/v60.0/'') = Some u \<and>
            url_protocol u = ''https:'' \<and> url_host u = ''foo.example.com'' \<longrightarrow>
            fst d = Some ''https://foo.example.com'') \<and>
         (\<forall>r doc u.
            userinfo token = Response r \<and> 200 \<le> resp_status r \<and> resp_status r \<le> 299 \<and>
            resp_json r = Some doc \<and>
            truthy (js_opt_prop (js_opt_prop doc ''urls'') ''rest'') \<and>
            newURL (js_opt_prop (js_opt_prop doc ''urls'') ''rest'') = Some u \<longrightarrow>
            fst d = Some (url_protocol u @ ''//'' @ url_host u)) \<and>
         (userinfo token = NetworkError \<or>
          (\<exists>r. userinfo token = Response r \<and>
             (\<not> (200 \<le> resp_status r \<and> resp_status r \<le> 299) \<or> resp_json r = None \<or>
              (\<exists>doc. resp_json r = Some doc \<and>
                 \<not> truthy (js_opt_prop (js_opt_prop doc ''urls'') ''rest'')))) \<longrightarrow>
          fst d = None) \<and>
         (\<forall>hs h.
            getHeaderValue hs ''authorization'' = Some h \<and> startsWith h ''Bearer '' \<and>
            js_trim (drop 7 h) = token \<and> token \<noteq> [] \<and>
            hs ''x-salesforce-instance-url'' = None \<longrightarrow>
            getAuthContext newURL userinfo calls (Some hs)
              = (case fst d of
                   None \<Rightarrow> None
                 | Some e \<Rightarrow> Some \<lparr>accessToken = token, instanceUrl = Some e, userId = None\<rparr>,
                 calls @ [token]))"
proof -
  have calls: "snd d = calls @ [token]"
    unfolding assms by (rule derive_calls)
  have any: "fst d = Some (url_protocol u @ ''//'' @ url_host u)"
    if "userinfo token = Response r" "200 \<le> resp_status r \<and> resp_status r \<le> 299"
       "resp_json r = Some doc"
       "truthy (js_opt_prop (js_opt_prop doc ''urls'') ''rest'')"
       "newURL (js_opt_prop (js_opt_prop doc ''urls'') ''rest'') = Some u"
    for r doc u
  proof -
    have "response_ok r"
      using that(2) by (simp add: response_ok_def)
    with that show ?thesis
      unfolding assms
      by (intro derive_success [where r = r and doc = doc
            and v = "js_opt_prop (js_opt_prop doc ''urls'') ''rest''"]) simp_all
  qed
  have ok: "fst d = Some ''https://foo.example.com''"
    if "userinfo token = Response r" "200 \<le> resp_status r \<and> resp_status r \<le> 299"
       "resp_json r = Some doc"
       "js_opt_prop (js_opt_prop doc ''urls'') ''rest''
              = JStr ''https://foo.example.com/services/data/v60.0/''"
       "newURL (JStr ''https://foo.example.com/services/data/v60.0/'') = Some u"
       "url_protocol u = ''https:''" "url_host u = ''foo.example.com''"
    for r doc u
    using any [OF that(1-3), of u] that(4-7) by simp
  have bad: "fst d = None"
    if "userinfo token = NetworkError \<or>
          (\<exists>r. userinfo token = Response r \<and>
             (\<not> (200 \<le> resp_status r \<and> resp_status r \<le> 299) \<or> resp_json r = None \<or>
              (\<exists>doc. resp_json r = Some doc \<and>
                 \<not> truthy (js_opt_prop (js_opt_prop doc ''urls'') ''rest''))))"
    unfolding assms
    by (rule derive_failure) (use that in \<open>auto simp: response_ok_def\<close>)
  have resolve: "getAuthContext newURL userinfo calls (Some hs)
              = (case fst d of
                   None \<Rightarrow> None
                 | Some e \<Rightarrow> Some \<lparr>accessToken = token, instanceUrl = Some e, userId = None\<rparr>,
                 calls @ [token])"
    if "getHeaderValue hs ''authorization'' = Some h \<and> startsWith h ''Bearer '' \<and>
            js_trim (drop 7 h) = token \<and> token \<noteq> [] \<and>
            hs ''x-salesforce-instance-url'' = None" for hs h
  proof -
    from that have cred: "getHeaderValue hs ''authorization'' = Some h"
      "startsWith h ''Bearer ''" "js_trim (drop 7 h) = token" "token \<noteq> []"
      and "hs ''x-salesforce-instance-url'' = None"
      by simp_all
    then have absent: "getHeaderValue hs ''x-salesforce-instance-url'' = None \<or>
         getHeaderValue hs ''x-salesforce-instance-url'' = Some []"
      by (simp add: getHeaderValue.simps)
    note slow = resolve_slow [OF cred absent, of newURL userinfo calls]
    show ?thesis
      using calls derive_nonempty [of newURL userinfo calls token]
      unfolding assms
      by (cases "deriveInstanceUrlFromToken newURL userinfo calls token")
         (auto simp: slow split: option.splits)
  qed
  from calls ok any bad resolve show ?thesis by blast
qed

lemma trim_plain: "js_trim ''abc'' = ''abc''"
  by (simp add: js_trim_def js_whitespace_def)

lemma trim_abc: "js_trim (drop 7 ''Bearer abc'') = ''abc''"
  by (simp add: trim_plain)

lemma foo_url:
  "exampleURL (JStr ''https://foo.example.com/services/data/v60.0/'')
     = Some \<lparr>url_protocol = ''https:'', url_host = ''foo.example.com''\<rparr>"
  by (simp add: Let_def)

theorem C5_slow_path_witness:
  "getHeaderValue hs_bearer ''authorization'' = Some ''Bearer abc'' \<and>
   startsWith ''Bearer abc'' ''Bearer '' \<and>
   js_trim (drop 7 ''Bearer abc'') = ''abc'' \<and>
   hs_bearer ''x-salesforce-instance-url'' = None \<and>
   deriveInstanceUrlFromToken exampleURL endpoint_foo [] ''abc''
     = (Some ''https://foo.example.com'', [''abc'']) \<and>
   getAuthContext exampleURL endpoint_foo [] (Some hs_bearer)
     = (Some \<lparr>accessToken = ''abc'', instanceUrl = Some ''https://foo.example.com'',
              userId = None\<rparr>, [''abc'']) \<and>
   getAuthContext exampleURL endpoint_down [] (Some hs_bearer) = (None, [''abc''])"
proof -
  have h1: "getHeaderValue hs_bearer ''authorization'' = Some ''Bearer abc''"
    by (simp add: hs_bearer_def getHeaderValue.simps)
  have h2: "startsWith ''Bearer abc'' ''Bearer ''"
    by (simp add: startsWith_def)
  have h5: "hs_bearer ''x-salesforce-instance-url'' = None"
    by (simp add: hs_bearer_def)
  have cred: "getHeaderValue hs_bearer ''authorization'' = Some ''Bearer abc'' \<and>
      startsWith ''Bearer abc'' ''Bearer '' \<and> js_trim (drop 7 ''Bearer abc'') = ''abc'' \<and>
      ''abc'' \<noteq> [] \<and> hs_bearer ''x-salesforce-instance-url'' = None"
    using h1 h2 trim_abc h5 by simp
  note foo = C5_slow_path [OF refl, of exampleURL endpoint_foo "[]" "''abc''"]
  note down = C5_slow_path [OF refl, of exampleURL endpoint_down "[]" "''abc''"]
  have f1: "fst (deriveInstanceUrlFromToken exampleURL endpoint_foo [] ''abc'')
              = Some ''https://foo.example.com''"
    by (rule foo [THEN conjunct2, THEN conjunct1, rule_format,
          of "\<lparr>resp_status = 200, resp_json = Some (JObj [(''user_id'', JStr ''005''),
                 (''urls'', JObj [(''rest'',
                    JStr ''https://foo.example.com/services/data/v60.0/'')])])\<rparr>"
             "JObj [(''user_id'', JStr ''005''),
                 (''urls'', JObj [(''rest'',
                    JStr ''https://foo.example.com/services/data/v60.0/'')])]"
             "\<lparr>url_protocol = ''https:'', url_host = ''foo.example.com''\<rparr>"])
       (simp add: endpoint_foo_def js_opt_prop_def foo_url)
  have f2: "snd (deriveInstanceUrlFromToken exampleURL endpoint_foo [] ''abc'') = [''abc'']"
    using foo by simp
  have f3: "getAuthContext exampleURL endpoint_foo [] (Some hs_bearer)
     = (Some \<lparr>accessToken = ''abc'', instanceUrl = Some ''https://foo.example.com'',
              userId = None\<rparr>, [''abc''])"
    using foo [THEN conjunct2, THEN conjunct2, THEN conjunct2, THEN conjunct2, rule_format,
        OF cred]
    by (simp add: f1)
  have d1: "fst (deriveInstanceUrlFromToken exampleURL endpoint_down [] ''abc'') = None"
    using down by (simp add: endpoint_down_def)
  have d3: "getAuthContext exampleURL endpoint_down [] (Some hs_bearer) = (None, [''abc''])"
    using down [THEN conjunct2, THEN conjunct2, THEN conjunct2, THEN conjunct2, rule_format,
        OF cred]
    by (simp add: d1)
  show ?thesis
    using h1 h2 trim_abc h5 f1 f2 f3 d3 by (simp add: prod_eq_iff)
qed

text \<open>
  C6 (as stated, refuted): with the resource-endpoint header present and holding the
  empty string, resolution calls the introspection endpoint once and uses the derived
  endpoint, not the header's value.
\<close>

theorem C6_counterexample:
  "hs_bearer_empty_instance ''x-salesforce-instance-url'' = Some (Single '''') \<and>
   getAuthContext exampleURL endpoint_foo [] (Some hs_bearer_empty_instance)
     = (Some \<lparr>accessToken = ''abc'', instanceUrl = Some ''https://foo.example.com'',
              userId = None\<rparr>, [''abc''])"
  by (simp add: hs_bearer_empty_instance_def getAuthContext_def startsWith_def trim_abc
        getHeaderValue.simps trim_plain
        deriveInstanceUrlFromToken_def endpoint_foo_def response_ok_def js_opt_prop_def Let_def)

text \<open>
  C6 (amended): when the normalized resource-endpoint header is a non-empty string,
  resolution makes no call to the introspection endpoint (the log of calls is unchanged),
  and with a valid bearer credential the context carries the header's value verbatim.
\<close>

theorem C6_fast_path:
  assumes "getHeaderValue hs ''x-salesforce-instance-url'' = Some u" and "u \<noteq> []"
  shows "snd (getAuthContext newURL userinfo calls (Some hs)) = calls \<and>
         (\<forall>h. getHeaderValue hs ''authorization'' = Some h \<and> startsWith h ''Bearer '' \<and>
               js_trim (drop 7 h) \<noteq> [] \<longrightarrow>
               fst (getAuthContext newURL userinfo calls (Some hs))
                 = Some \<lparr>accessToken = js_trim (drop 7 h), instanceUrl = Some u, userId = None\<rparr>)"
  using assms
  by (cases "getHeaderValue hs ''authorization''")
     (auto simp: getAuthContext_def Let_def dest: startsWith_nonempty)

theorem C6_fast_path_witness:
  "getHeaderValue hs_bearer_instance ''x-salesforce-instance-url''
     = Some ''https://na1.salesforce.com/x'' \<and>
   getAuthContext exampleURL endpoint_foo [] (Some hs_bearer_instance)
     = (Some \<lparr>accessToken = ''abc'', instanceUrl = Some ''https://na1.salesforce.com/x'',
              userId = None\<rparr>, [])"
proof -
  have h1: "getHeaderValue hs_bearer_instance ''x-salesforce-instance-url''
     = Some ''https://na1.salesforce.com/x''"
    by (simp add: hs_bearer_instance_def getHeaderValue.simps)
  have h2: "''https://na1.salesforce.com/x'' \<noteq> []" by simp
  note fast = C6_fast_path [OF h1 h2, of exampleURL endpoint_foo "[]"]
  have "fst (getAuthContext exampleURL endpoint_foo [] (Some hs_bearer_instance))
          = Some \<lparr>accessToken = js_trim (drop 7 ''Bearer abc''),
                  instanceUrl = Some ''https://na1.salesforce.com/x'', userId = None\<rparr>"
    by (rule fast [THEN conjunct2, rule_format])
       (simp add: hs_bearer_instance_def startsWith_def trim_plain getHeaderValue.simps)
  then show ?thesis
    using h1 fast by (simp add: prod_eq_iff trim_plain)
qed

section \<open>Auth Gate: results\<close>

lemma rejected_short_circuit:
  "salesforceOAuthMiddleware req = Reject r \<Longrightarrow>
     serve_mcp handleRequest fresh now req st = (Replied r, st)"
  by (simp add: serve_mcp_def)

lemma gate_missing:
  assumes "req_method req \<noteq> ''GET''"
    and "js_opt_prop (req_body req) ''method'' \<notin> JStr ` set skipAuthMethods"
    and "getHeaderValue (req_headers req) ''authorization'' = None \<or>
         getHeaderValue (req_headers req) ''authorization'' = Some []"
  shows "salesforceOAuthMiddleware req = Reject (missingCredential (requestId req))"
  using assms by (auto simp: salesforceOAuthMiddleware_def Let_def)

lemma gate_malformed:
  assumes "req_method req \<noteq> ''GET''"
    and "js_opt_prop (req_body req) ''method'' \<notin> JStr ` set skipAuthMethods"
    and "getHeaderValue (req_headers req) ''authorization'' = Some h"
    and "h \<noteq> []" and "\<not> startsWith h ''Bearer ''"
  shows "salesforceOAuthMiddleware req = Reject (malformedCredential (requestId req))"
  using assms by (auto simp: salesforceOAuthMiddleware_def Let_def)

lemma gate_empty:
  assumes "req_method req \<noteq> ''GET''"
    and "js_opt_prop (req_body req) ''method'' \<notin> JStr ` set skipAuthMethods"
    and "getHeaderValue (req_headers req) ''authorization'' = Some h"
    and "startsWith h ''Bearer ''" and "js_trim (drop 7 h) = []"
  shows "salesforceOAuthMiddleware req = Reject (emptyCredential (requestId req))"
  using assms startsWith_nonempty [OF assms(4)]
  by (auto simp: salesforceOAuthMiddleware_def Let_def)

lemma credential_errors_distinct:
  "missingCredential i \<noteq> malformedCredential j"
  "missingCredential i \<noteq> emptyCredential j"
  "malformedCredential i \<noteq> emptyCredential j"
  by (simp_all add: missingCredential_def malformedCredential_def emptyCredential_def
        rpc_error_def)

lemma credential_errors_shape:
  "http_status (missingCredential i) = 401 \<and> err_code (missingCredential i) = - 32000"
  "http_status (malformedCredential i) = 401 \<and> err_code (malformedCredential i) = - 32000"
  "http_status (emptyCredential i) = 401 \<and> err_code (emptyCredential i) = - 32000"
  by (simp_all add: missingCredential_def malformedCredential_def emptyCredential_def
        rpc_error_def)

text \<open>
  C7 (as stated, refuted): a credential header that is present, is not prefixed with
  \<open>Bearer \<close> and holds the empty string is answered with the MissingCredential error,
  not with the MalformedCredential error.
\<close>

theorem C7_counterexample:
  "req_method req_empty_credential_header \<noteq> ''GET'' \<and>
   js_opt_prop (req_body req_empty_credential_header) ''method'' \<notin> JStr ` set skipAuthMethods \<and>
   req_headers req_empty_credential_header ''authorization'' = Some (Single '''') \<and>
   \<not> startsWith '''' ''Bearer '' \<and>
   salesforceOAuthMiddleware req_empty_credential_header = Reject (missingCredential (JNum 7)) \<and>
   missingCredential (JNum 7) \<noteq> malformedCredential (JNum 7)"
  by (simp add: req_empty_credential_header_def post_request_def rpc_call_def
        js_opt_prop_def skipAuthMethods_def startsWith_def salesforceOAuthMiddleware_def
        getHeaderValue.simps requestId_def coalesce_def credential_errors_distinct)

text \<open>
  C7 (amended): for every request subject to authentication (not a GET, method not on the
  allow-list): a credential header that is missing or normalizes to the empty string
  yields the MissingCredential error; a non-empty one not prefixed with the case-sensitive
  literal \<open>Bearer \<close> yields the MalformedCredential error; one whose remainder after the
  prefix trims to the empty string yields the EmptyCredential error. The three errors are
  pairwise distinct; each is a 401 with code -32000; in each case the resolver produces no
  auth context and the server answers with that error without reaching the endpoint, the
  registry unchanged.
\<close>

theorem C7_credential_errors:
  assumes "req_method req \<noteq> ''GET''"
    and "js_opt_prop (req_body req) ''method'' \<notin> JStr ` set skipAuthMethods"
    and "cred = getHeaderValue (req_headers req) ''authorization''"
    and "(cred = None \<or> cred = Some []) \<and> r = missingCredential (requestId req) \<or>
         (\<exists>h. cred = Some h \<and> h \<noteq> [] \<and> \<not> startsWith h ''Bearer '' \<and>
              r = malformedCredential (requestId req)) \<or>
         (\<exists>h. cred = Some h \<and> startsWith h ''Bearer '' \<and> js_trim (drop 7 h) = [] \<and>
              r = emptyCredential (requestId req))"
  shows "salesforceOAuthMiddleware req = Reject r \<and>
         http_status r = 401 \<and> err_code r = - 32000 \<and>
         fst (getAuthContext newURL userinfo calls (Some (req_headers req))) = None \<and>
         serve_mcp handleRequest fresh now req st = (Replied r, st) \<and>
         missingCredential (requestId req) \<noteq> malformedCredential (requestId req) \<and>
         missingCredential (requestId req) \<noteq> emptyCredential (requestId req) \<and>
         malformedCredential (requestId req) \<noteq> emptyCredential (requestId req)"
proof -
  have rejected: "salesforceOAuthMiddleware req = Reject r"
    using assms(4) gate_missing [OF assms(1,2)] gate_malformed [OF assms(1,2)]
      gate_empty [OF assms(1,2)]
    unfolding assms(3) by blast
  have shape: "http_status r = 401 \<and> err_code r = - 32000"
    using assms(4) credential_errors_shape by blast
  have "getHeaderValue (req_headers req) ''authorization'' = None \<or>
           (\<exists>h. getHeaderValue (req_headers req) ''authorization'' = Some h \<and>
              (\<not> startsWith h ''Bearer '' \<or> js_trim (drop 7 h) = []))"
    using assms(4) unfolding assms(3) by (auto simp: startsWith_def)
  then have unresolved:
    "fst (getAuthContext newURL userinfo calls (Some (req_headers req))) = None"
    by (simp add: resolve_no_credential)
  show ?thesis
    using rejected shape unresolved rejected_short_circuit [OF rejected]
      credential_errors_distinct
    by blast
qed

text \<open>A request rejected in each of the three ways.\<close>

theorem C7_credential_errors_witness:
  "salesforceOAuthMiddleware req_no_body = Reject (missingCredential (JStr ''unknown'')) \<and>
   salesforceOAuthMiddleware req_basic_scheme = Reject (malformedCredential (JNum 7)) \<and>
   salesforceOAuthMiddleware req_blank_token = Reject (emptyCredential (JNum 7)) \<and>
   serve_mcp transport_ok (Transport 0) 0 req_blank_token empty_registry
     = (Replied (emptyCredential (JNum 7)), empty_registry)"
proof -
  have m: "req_method req_no_body \<noteq> ''GET''" "req_method req_basic_scheme \<noteq> ''GET''"
    "req_method req_blank_token \<noteq> ''GET''"
    by (simp_all add: req_no_body_def req_basic_scheme_def req_blank_token_def post_request_def)
  have s1: "js_opt_prop (req_body req_no_body) ''method'' \<notin> JStr ` set skipAuthMethods"
    by (simp add: req_no_body_def post_request_def js_opt_prop_def skipAuthMethods_def)
  have s2: "js_opt_prop (req_body req_basic_scheme) ''method'' \<notin> JStr ` set skipAuthMethods"
    by (simp add: req_basic_scheme_def post_request_def rpc_call_def js_opt_prop_def
          skipAuthMethods_def)
  have s3: "js_opt_prop (req_body req_blank_token) ''method'' \<notin> JStr ` set skipAuthMethods"
    by (simp add: req_blank_token_def post_request_def rpc_call_def js_opt_prop_def
          skipAuthMethods_def)
  have i1: "requestId req_no_body = JStr ''unknown''"
    by (simp add: req_no_body_def post_request_def requestId_def js_opt_prop_def coalesce_def)
  have i2: "requestId req_basic_scheme = JNum 7"
    by (simp add: req_basic_scheme_def post_request_def rpc_call_def requestId_def
          js_opt_prop_def coalesce_def)
  have i3: "requestId req_blank_token = JNum 7"
    by (simp add: req_blank_token_def post_request_def rpc_call_def requestId_def
          js_opt_prop_def coalesce_def)
  have c1: "getHeaderValue (req_headers req_no_body) ''authorization'' = None"
    by (simp add: req_no_body_def post_request_def getHeaderValue.simps)
  have c2: "getHeaderValue (req_headers req_basic_scheme) ''authorization'' = Some ''Basic abc''"
    by (simp add: req_basic_scheme_def post_request_def getHeaderValue.simps)
  have c3: "getHeaderValue (req_headers req_blank_token) ''authorization'' = Some ''Bearer   ''"
    by (simp add: req_blank_token_def post_request_def getHeaderValue.simps)
  have blank: "js_trim (drop 7 ''Bearer   '') = []"
    by (simp add: js_trim_def js_whitespace_def)
  have k1: "(None = None \<or> None = Some []) \<and>
         missingCredential (JStr ''unknown'') = missingCredential (requestId req_no_body) \<or>
         (\<exists>h. None = Some h \<and> h \<noteq> [] \<and> \<not> startsWith h ''Bearer '' \<and>
              missingCredential (JStr ''unknown'') = malformedCredential (requestId req_no_body)) \<or>
         (\<exists>h. None = Some h \<and> startsWith h ''Bearer '' \<and> js_trim (drop 7 h) = [] \<and>
              missingCredential (JStr ''unknown'') = emptyCredential (requestId req_no_body))"
    by (simp add: i1)
  have k2: "(Some ''Basic abc'' = None \<or> Some ''Basic abc'' = Some []) \<and>
         malformedCredential (JNum 7) = missingCredential (requestId req_basic_scheme) \<or>
         (\<exists>h. Some ''Basic abc'' = Some h \<and> h \<noteq> [] \<and> \<not> startsWith h ''Bearer '' \<and>
              malformedCredential (JNum 7) = malformedCredential (requestId req_basic_scheme)) \<or>
         (\<exists>h. Some ''Basic abc'' = Some h \<and> startsWith h ''Bearer '' \<and>
              js_trim (drop 7 h) = [] \<and>
              malformedCredential (JNum 7) = emptyCredential (requestId req_basic_scheme))"
    by (simp add: i2 startsWith_def)
  have k3: "(Some ''Bearer   '' = None \<or> Some ''Bearer   '' = Some []) \<and>
         emptyCredential (JNum 7) = missingCredential (requestId req_blank_token) \<or>
         (\<exists>h. Some ''Bearer   '' = Some h \<and> h \<noteq> [] \<and> \<not> startsWith h ''Bearer '' \<and>
              emptyCredential (JNum 7) = malformedCredential (requestId req_blank_token)) \<or>
         (\<exists>h. Some ''Bearer   '' = Some h \<and> startsWith h ''Bearer '' \<and>
              js_trim (drop 7 h) = [] \<and>
              emptyCredential (JNum 7) = emptyCredential (requestId req_blank_token))"
    using blank by (simp add: i3 startsWith_def)
  show ?thesis
    using C7_credential_errors [OF m(1) s1 c1 [symmetric] k1]
      C7_credential_errors [OF m(2) s2 c2 [symmetric] k2]
      C7_credential_errors [OF m(3) s3 c3 [symmetric] k3,
        of _ _ _ transport_ok "Transport 0" 0 empty_registry]
    by simp
qed

section \<open>Error responses: results\<close>

lemma gate_reject_id:
  "salesforceOAuthMiddleware req = Reject r \<Longrightarrow> resp_id r = requestId req"
  by (auto simp: salesforceOAuthMiddleware_def Let_def missingCredential_def
        malformedCredential_def emptyCredential_def rpc_error_def
      split: if_splits option.splits)

lemma endpoint_reply_id:
  "mcp_endpoint handleRequest fresh now req st = (Replied r, st') \<Longrightarrow>
     resp_id r = coalesce (js_opt_prop (req_body req) ''id'') JNull"
  by (auto simp: mcp_endpoint_def hand_over_def Let_def sessionRequired_def invalidSession_def
        internalError_def rpc_error_def
      split: if_splits option.splits handled.splits)

text \<open>
  C2 (as stated, refuted): for a request whose body could not be parsed and which has no
  credential, the auth gate's error carries the id \<open>'unknown'\<close>, a string, not null.
\<close>

theorem C2_counterexample:
  "req_body req_unparsed = JUndefined \<and>
   serve_mcp transport_ok (Transport 0) 0 req_unparsed empty_registry
     = (Replied (missingCredential (JStr ''unknown'')), empty_registry) \<and>
   resp_id (missingCredential (JStr ''unknown'')) = JStr ''unknown'' \<and>
   JStr ''unknown'' \<noteq> JNull"
  by (simp add: req_unparsed_def post_request_def serve_mcp_def salesforceOAuthMiddleware_def
        js_opt_prop_def skipAuthMethods_def getHeaderValue.simps requestId_def coalesce_def
        missingCredential_def rpc_error_def)

text \<open>
  C2 (amended): every protocol-level error response carries an \<open>id\<close> that echoes the
  call's correlation id when the body has one that is neither null nor undefined. When the
  correlation id is unavailable, the errors of the endpoint (session rejections and
  internal errors) carry null and the errors of the auth gate carry the string
  \<open>'unknown'\<close>.
\<close>

theorem C2_error_ids:
  assumes "i = js_opt_prop (req_body req) ''id''"
  shows "(salesforceOAuthMiddleware req = Reject r \<longrightarrow>
            resp_id r = (if nullish i then JStr ''unknown'' else i)) \<and>
         (mcp_endpoint handleRequest fresh now req st = (Replied r, st') \<longrightarrow>
            resp_id r = (if nullish i then JNull else i)) \<and>
         (serve_mcp handleRequest fresh now req st = (Replied r, st') \<longrightarrow>
            resp_id r = (if \<not> nullish i then i
                         else if salesforceOAuthMiddleware req = Reject r then JStr ''unknown''
                         else JNull))"
proof -
  have gate: "resp_id r = (if nullish i then JStr ''unknown'' else i)"
    if "salesforceOAuthMiddleware req = Reject r"
    using gate_reject_id [OF that] by (simp add: requestId_def coalesce_def assms)
  have endpoint: "resp_id r = (if nullish i then JNull else i)"
    if "mcp_endpoint handleRequest fresh now req st = (Replied r, st')"
    using endpoint_reply_id [OF that] by (simp add: coalesce_def assms)
  have "resp_id r = (if \<not> nullish i then i
                         else if salesforceOAuthMiddleware req = Reject r then JStr ''unknown''
                         else JNull)"
    if "serve_mcp handleRequest fresh now req st = (Replied r, st')"
  proof (cases "salesforceOAuthMiddleware req")
    case (Next ctx)
    with that have "mcp_endpoint handleRequest fresh now req st = (Replied r, st')"
      by (simp add: serve_mcp_def)
    from endpoint [OF this] Next show ?thesis by simp
  next
    case (Reject r')
    with that have "r' = r" by (simp add: serve_mcp_def)
    with Reject gate show ?thesis by simp
  qed
  with gate endpoint show ?thesis by blast
qed

theorem C2_error_ids_witness:
  "js_opt_prop (req_body req_empty_credential_header) ''id'' = JNum 7 \<and>
   salesforceOAuthMiddleware req_empty_credential_header = Reject (missingCredential (JNum 7)) \<and>
   resp_id (missingCredential (JNum 7)) = JNum 7 \<and>
   js_opt_prop (req_body req_stale_get) ''id'' = JUndefined \<and>
   mcp_endpoint transport_ok (Transport 0) 0 req_stale_get empty_registry
     = (Replied (invalidSession JNull), empty_registry) \<and>
   resp_id (invalidSession JNull) = JNull"
proof -
  have a: "JNum 7 = js_opt_prop (req_body req_empty_credential_header) ''id''"
    by (simp add: req_empty_credential_header_def post_request_def rpc_call_def js_opt_prop_def)
  have b: "salesforceOAuthMiddleware req_empty_credential_header
             = Reject (missingCredential (JNum 7))"
    by (simp add: req_empty_credential_header_def post_request_def rpc_call_def
        js_opt_prop_def skipAuthMethods_def salesforceOAuthMiddleware_def
        getHeaderValue.simps requestId_def coalesce_def)
  have c: "JUndefined = js_opt_prop (req_body req_stale_get) ''id''"
    by (simp add: req_stale_get_def js_opt_prop_def)
  have d: "mcp_endpoint transport_ok (Transport 0) 0 req_stale_get empty_registry
             = (Replied (invalidSession JNull), empty_registry)"
    by (simp add: req_stale_get_def mcp_endpoint_def empty_registry_def Map_get_def
          js_opt_prop_def coalesce_def)
  have g: "resp_id (missingCredential (JNum 7)) = JNum 7"
    using C2_error_ids [OF a, of "missingCredential (JNum 7)"] b by simp
  have e: "resp_id (invalidSession JNull) = JNull"
    using C2_error_ids [OF c, where handleRequest = transport_ok and fresh = "Transport 0"
        and now = 0 and st = empty_registry and r = "invalidSession JNull"
        and st' = empty_registry] d
    by simp
  show ?thesis
    using g e a [symmetric] b c [symmetric] d by simp
qed

section \<open>Session Registry: results\<close>

lemma Map_get_delete:
  "Map_get (Map_delete m k) k' = (if k' = k then None else Map_get m k')"
  by (induction m) (auto simp: Map_get_def Map_delete_def)


lemma not_given_no_key: "\<not> session_given h \<Longrightarrow> session_key h = None"
  by (cases h rule: session_given.cases) auto

lemma track_new_session:
  assumes "req_method req = ''POST''" and "\<not> session_given (req_headers req ''mcp-session-id'')"
  shows "track now req st = st"
  using assms not_given_no_key [OF assms(2)] by (simp add: track_def)

lemma session_errors_shape:
  "http_status (sessionRequired i) = 400 \<and> err_code (sessionRequired i) = - 32000"
  "http_status (invalidSession i) = 400 \<and> err_code (invalidSession i) = - 32000"
  by (simp_all add: sessionRequired_def invalidSession_def rpc_error_def)

lemma gate_bypass:
  "js_opt_prop (req_body req) ''method'' \<in> JStr ` set skipAuthMethods \<Longrightarrow>
     serve_mcp handleRequest fresh now req st = mcp_endpoint handleRequest fresh now req st"
  by (simp add: serve_mcp_def salesforceOAuthMiddleware_def Let_def)

text \<open>
  C3 (as stated, refuted): \<open>ping\<close> is on the allow-list of bootstrap methods, and a POST
  of \<open>ping\<close> without a session id is rejected with SessionRequired.
\<close>

theorem C3_counterexample:
  "''ping'' \<in> set skipAuthMethods \<and>
   req_method req_ping_no_session = ''POST'' \<and>
   req_headers req_ping_no_session ''mcp-session-id'' = None \<and>
   serve_mcp transport_ok (Transport 0) 0 req_ping_no_session empty_registry
     = (Replied (sessionRequired (JNum 1)), empty_registry)"
  by (simp add: req_ping_no_session_def post_request_def rpc_call_def skipAuthMethods_def
        serve_mcp_def salesforceOAuthMiddleware_def js_opt_prop_def mcp_endpoint_def
        coalesce_def)

text \<open>
  C3 (amended): for every POST that reaches the RPC endpoint with a parsed body and
  without a session identifier: if its method is \<open>initialize\<close> it is accepted without any prior
  session id (it is handed to a fresh transport, and the registry is unchanged until the
  handshake completes); for every other method, \<open>ping\<close> included, the endpoint rejects it
  with the SessionRequired error (code -32000, HTTP 400) and the registry is unchanged.
  The auth gate lets \<open>initialize\<close> and \<open>ping\<close> through to the endpoint.
\<close>

theorem C3_sessionless_post:
  assumes "req_method req = ''POST''"
    and "\<not> session_given (req_headers req ''mcp-session-id'')"
    and "js_prop (req_body req) ''method'' = Some m"
  shows "(m = JStr ''initialize'' \<longrightarrow>
            mcp_endpoint handleRequest fresh now req st
              = (case handleRequest fresh req of
                   Completed \<Rightarrow> (Dispatched fresh, st)
                 | Threw msg headersSent \<Rightarrow>
                     if headersSent then (Unanswered, st)
                     else (Replied (internalError (Thrown msg)
                            (coalesce (js_opt_prop (req_body req) ''id'') JNull)), st))) \<and>
         (m \<noteq> JStr ''initialize'' \<longrightarrow>
            mcp_endpoint handleRequest fresh now req st
              = (Replied (sessionRequired (coalesce (js_opt_prop (req_body req) ''id'') JNull)),
                 st)) \<and>
         (m = JStr ''initialize'' \<or> m = JStr ''ping'' \<longrightarrow>
            serve_mcp handleRequest fresh now req st
              = mcp_endpoint handleRequest fresh now req st) \<and>
         http_status (sessionRequired i) = 400 \<and> err_code (sessionRequired i) = - 32000"
proof -
  have m: "js_opt_prop (req_body req) ''method'' = m"
    using assms(3) by (simp add: js_opt_prop_def)
  have init: "mcp_endpoint handleRequest fresh now req st
              = (case handleRequest fresh req of
                   Completed \<Rightarrow> (Dispatched fresh, st)
                 | Threw msg headersSent \<Rightarrow>
                     if headersSent then (Unanswered, st)
                     else (Replied (internalError (Thrown msg)
                            (coalesce (js_opt_prop (req_body req) ''id'') JNull)), st))"
    if "m = JStr ''initialize''"
    using that assms track_new_session [OF assms(1,2)]
    by (simp add: mcp_endpoint_def hand_over_def Let_def)
  have other: "mcp_endpoint handleRequest fresh now req st
              = (Replied (sessionRequired (coalesce (js_opt_prop (req_body req) ''id'') JNull)),
                 st)"
    if "m \<noteq> JStr ''initialize''"
    using that assms by (simp add: mcp_endpoint_def Let_def)
  have bypass: "serve_mcp handleRequest fresh now req st
              = mcp_endpoint handleRequest fresh now req st"
    if "m = JStr ''initialize'' \<or> m = JStr ''ping''"
    by (rule gate_bypass) (use that m in \<open>auto simp: skipAuthMethods_def\<close>)
  from init other bypass session_errors_shape(1) show ?thesis by blast
qed

theorem C3_sessionless_post_witness:
  "serve_mcp transport_ok (Transport 5) 0 req_initialize empty_registry
     = (Dispatched (Transport 5), empty_registry) \<and>
   mcp_endpoint transport_ok (Transport 5) 0 (post_request Map.empty (rpc_call ''tools/list'' 7))
       empty_registry
     = (Replied (sessionRequired (JNum 7)), empty_registry) \<and>
   mcp_endpoint transport_ok (Transport 5) 0 (post_request Map.empty (JObj [])) empty_registry
     = (Replied (sessionRequired JNull), empty_registry)"
proof -
  have p: "req_method (post_request Map.empty b) = ''POST''" for b
    by (simp add: post_request_def)
  have g: "\<not> session_given (req_headers (post_request Map.empty b) ''mcp-session-id'')" for b
    by (simp add: post_request_def)
  have m: "js_prop (req_body (post_request Map.empty (rpc_call x n))) ''method'' = Some (JStr x)"
    for x n
    by (simp add: post_request_def rpc_call_def)
  have i: "js_opt_prop (req_body (post_request Map.empty (rpc_call x n))) ''id'' = JNum n"
    for x n
    by (simp add: post_request_def rpc_call_def js_opt_prop_def)
  have e: "js_prop (req_body (post_request Map.empty (JObj []))) ''method'' = Some JUndefined"
    by (simp add: post_request_def)
  have j: "js_opt_prop (req_body (post_request Map.empty (JObj []))) ''id'' = JUndefined"
    by (simp add: post_request_def js_opt_prop_def)
  show ?thesis
    using C3_sessionless_post [OF p g m [of "''initialize''" 0],
        where handleRequest = transport_ok and fresh = "Transport 5" and now = 0
        and st = empty_registry]
      C3_sessionless_post [OF p g m [of "''tools/list''" 7],
        where handleRequest = transport_ok and fresh = "Transport 5" and now = 0
        and st = empty_registry]
      C3_sessionless_post [OF p g e,
        where handleRequest = transport_ok and fresh = "Transport 5" and now = 0
        and st = empty_registry]
    by (simp add: req_initialize_def transport_ok_def i j coalesce_def)
qed

lemma teardown_unregisters:
  "Map_get (transports (delete_cleanup sid st)) sid = None"
  "Map_get (transports (stream_closed sid st)) sid = None"
  "Map_get (transports (onsessionclosed sid st)) sid = None"
  by (simp_all add: delete_cleanup_def stream_closed_def onsessionclosed_def Let_def
        Map_get_delete)

text \<open>
  C8 (as stated, refuted): a POST of \<open>tools/list\<close> that presents a session identifier
  never issued and no credential is answered by the auth gate with MissingCredential
  (HTTP 401), not with InvalidSession (HTTP 400).
\<close>

theorem C8_counterexample:
  "req_headers req_stale_list ''mcp-session-id'' = Some (Single ''stale'') \<and>
   Map_get (transports empty_registry) ''stale'' = None \<and>
   serve_mcp transport_ok (Transport 0) 0 req_stale_list empty_registry
     = (Replied (missingCredential (JNum 7)), empty_registry) \<and>
   http_status (missingCredential (JNum 7)) = 401 \<and>
   http_status (invalidSession (JNum 7)) = 400 \<and>
   missingCredential (JNum 7) \<noteq> invalidSession (JNum 7)"
proof -
  have h: "req_headers req_stale_list ''mcp-session-id'' = Some (Single ''stale'')"
    by (simp add: req_stale_list_def post_request_def)
  have e: "Map_get (transports empty_registry) ''stale'' = None"
    by (simp add: empty_registry_def Map_get_def)
  have g: "salesforceOAuthMiddleware req_stale_list = Reject (missingCredential (JNum 7))"
    by (simp add: salesforceOAuthMiddleware_def req_stale_list_def post_request_def rpc_call_def
          js_opt_prop_def skipAuthMethods_def getHeaderValue.simps requestId_def coalesce_def)
  have s: "serve_mcp transport_ok (Transport 0) 0 req_stale_list empty_registry
             = (Replied (missingCredential (JNum 7)), empty_registry)"
    by (simp add: serve_mcp_def g)
  have c: "http_status (missingCredential (JNum 7)) = 401"
    "http_status (invalidSession (JNum 7)) = 400"
    by (simp_all add: missingCredential_def invalidSession_def rpc_error_def)
  from c have d: "missingCredential (JNum 7) \<noteq> invalidSession (JNum 7)"
    by auto
  from h e s c d show ?thesis by simp
qed

text \<open>
  C8 (amended): every request that passes the auth gate and presents a session identifier
  (a non-empty \<open>Mcp-Session-Id\<close>) that is not a key of the transport map is rejected
  with the InvalidSession error (code -32000, HTTP 400), whatever its HTTP method and its
  RPC method, and the registry is unchanged. A GET and a POST of a bootstrap method pass
  the gate with or without a credential. An identifier is not registered when it was never
  issued, before \<open>onsessioninitialized\<close> has entered it, and after any of the teardowns.
\<close>

theorem C8_unregistered_session:
  assumes "req_headers req ''mcp-session-id'' = Some (Single sid)" and "sid \<noteq> []"
    and "reply = Replied (invalidSession (coalesce (js_opt_prop (req_body req) ''id'') JNull))"
    and "passes \<longleftrightarrow> (\<exists>ctx. salesforceOAuthMiddleware req = Next ctx)"
  shows "(Map_get (transports st) sid = None \<longrightarrow>
            mcp_endpoint handleRequest fresh now req st = (reply, st) \<and>
            (passes \<longrightarrow> serve_mcp handleRequest fresh now req st = (reply, st))) \<and>
         mcp_endpoint handleRequest fresh now req (delete_cleanup sid st)
           = (reply, delete_cleanup sid st) \<and>
         mcp_endpoint handleRequest fresh now req (stream_closed sid st)
           = (reply, stream_closed sid st) \<and>
         mcp_endpoint handleRequest fresh now req (onsessionclosed sid st)
           = (reply, onsessionclosed sid st) \<and>
         mcp_endpoint handleRequest fresh now req empty_registry = (reply, empty_registry) \<and>
         (passes \<longrightarrow>
            serve_mcp handleRequest fresh now req (delete_cleanup sid st)
              = (reply, delete_cleanup sid st) \<and>
            serve_mcp handleRequest fresh now req (stream_closed sid st)
              = (reply, stream_closed sid st) \<and>
            serve_mcp handleRequest fresh now req (onsessionclosed sid st)
              = (reply, onsessionclosed sid st) \<and>
            serve_mcp handleRequest fresh now req empty_registry = (reply, empty_registry)) \<and>
         (req_method req = ''GET'' \<or>
          js_opt_prop (req_body req) ''method'' \<in> JStr ` set skipAuthMethods \<longrightarrow> passes) \<and>
         http_status (invalidSession i) = 400 \<and> err_code (invalidSession i) = - 32000"
proof -
  have rejected: "mcp_endpoint handleRequest fresh now req st' = (reply, st')"
    if "Map_get (transports st') sid = None" for st'
    using that assms(1,2,3) by (simp add: mcp_endpoint_def Let_def)
  have served: "serve_mcp handleRequest fresh now req st' = (reply, st')"
    if "Map_get (transports st') sid = None" and passes for st'
    using rejected [OF that(1)] that(2) assms(4) by (auto simp: serve_mcp_def)
  have bypass: passes
    if "req_method req = ''GET'' \<or>
        js_opt_prop (req_body req) ''method'' \<in> JStr ` set skipAuthMethods"
    using that assms(4) by (auto simp: salesforceOAuthMiddleware_def Let_def)
  have none: "Map_get (transports empty_registry) sid = None"
    by (simp add: empty_registry_def Map_get_def)
  note gone = teardown_unregisters [of sid st]
  from rejected [OF gone(1)] rejected [OF gone(2)] rejected [OF gone(3)] rejected [OF none]
    served [OF gone(1)] served [OF gone(2)] served [OF gone(3)] served [OF none]
    rejected [of st] served [of st] bypass session_errors_shape(2) [of i]
  show ?thesis by blast
qed

theorem C8_unregistered_session_witness:
  "Map_get (transports empty_registry) ''stale'' = None \<and>
   js_opt_prop (req_body req_stale_initialize) ''method'' = JStr ''initialize'' \<and>
   serve_mcp transport_ok (Transport 5) 0 req_stale_initialize empty_registry
     = (Replied (invalidSession (JNum 0)), empty_registry) \<and>
   serve_mcp transport_ok (Transport 5) 0 req_stale_initialize
       (delete_cleanup ''stale'' registry_one)
     = (Replied (invalidSession (JNum 0)), delete_cleanup ''stale'' registry_one) \<and>
   salesforceOAuthMiddleware req_stale_list_bearer
     = Next (Some \<lparr>accessToken = ''abc'', instanceUrl = None, userId = None\<rparr>) \<and>
   serve_mcp transport_ok (Transport 5) 0 req_stale_list_bearer empty_registry
     = (Replied (invalidSession (JNum 7)), empty_registry)"
proof -
  have h: "req_headers req_stale_initialize ''mcp-session-id'' = Some (Single ''stale'')"
    "req_headers req_stale_list_bearer ''mcp-session-id'' = Some (Single ''stale'')"
    by (simp_all add: req_stale_initialize_def req_stale_list_bearer_def post_request_def)
  have n: "''stale'' \<noteq> []" by simp
  have e: "Map_get (transports empty_registry) ''stale'' = None"
    by (simp add: empty_registry_def Map_get_def)
  have i: "js_opt_prop (req_body req_stale_initialize) ''id'' = JNum 0"
    "js_opt_prop (req_body req_stale_list_bearer) ''id'' = JNum 7"
    by (simp_all add: req_stale_initialize_def req_stale_list_bearer_def post_request_def
          rpc_call_def js_opt_prop_def)
  have m: "js_opt_prop (req_body req_stale_initialize) ''method'' = JStr ''initialize''"
    by (simp add: req_stale_initialize_def post_request_def rpc_call_def js_opt_prop_def)
  then have b: "js_opt_prop (req_body req_stale_initialize) ''method'' \<in> JStr ` set skipAuthMethods"
    by (simp add: skipAuthMethods_def)
  have g: "salesforceOAuthMiddleware req_stale_list_bearer
             = Next (Some \<lparr>accessToken = ''abc'', instanceUrl = None, userId = None\<rparr>)"
    by (simp add: salesforceOAuthMiddleware_def req_stale_list_bearer_def post_request_def
          rpc_call_def js_opt_prop_def skipAuthMethods_def getHeaderValue.simps startsWith_def
          trim_plain)
  then have p: "True \<longleftrightarrow> (\<exists>ctx. salesforceOAuthMiddleware req_stale_list_bearer = Next ctx)"
    by simp
  show ?thesis
    using C8_unregistered_session [OF h(1) n refl refl, of empty_registry transport_ok
        "Transport 5" 0]
      C8_unregistered_session [OF h(1) n refl refl, of registry_one transport_ok
        "Transport 5" 0]
      C8_unregistered_session [OF h(2) n refl p, of empty_registry transport_ok
        "Transport 5" 0]
      e m b g
    by (simp add: i coalesce_def)
qed

section \<open>Liveness Manager: results\<close>

lemma Map_get_None_iff: "Map_get m k = None \<longleftrightarrow> k \<notin> fst ` set m"
  by (simp add: Map_get_def map_of_eq_None_iff)

lemma Map_get_filter_keys:
  "Map_get (filter (\<lambda>e. fst e \<notin> D) m) k = (if k \<in> D then None else Map_get m k)"
  by (induction m) (auto simp: Map_get_def)

lemma Map_delete_absent: "Map_get m k = None \<Longrightarrow> Map_delete m k = m"
  by (induction m) (auto simp: Map_get_def Map_delete_def)

lemma distinct_keys_get:
  "distinct (map fst m) \<Longrightarrow> (k, v) \<in> set m \<longleftrightarrow> Map_get m k = Some v"
  by (simp add: Map_get_def)

text \<open>The keepalive loop, entry by entry.\<close>

lemma keepalive_fold:
  "foldl (keepalive_entry write) st xs =
     st\<lparr>sseStreams :=
          filter (\<lambda>e. fst e \<notin> fst ` {x \<in> set xs. write (snd x) = WriteThrows}) (sseStreams st),
        sessionActivity :=
          filter (\<lambda>e. fst e \<notin> fst ` {x \<in> set xs. write (snd x) = WriteThrows})
            (sessionActivity st)\<rparr>"
proof (induction xs arbitrary: st)
  case Nil
  then show ?case by simp
next
  case (Cons x xs)
  show ?case
  proof (cases "write (snd x) = WriteThrows")
    case True
    have "{y \<in> set (x # xs). write (snd y) = WriteThrows}
            = insert x {y \<in> set xs. write (snd y) = WriteThrows}"
      using True by auto
    then have D: "fst ` {y \<in> set (x # xs). write (snd y) = WriteThrows}
            = insert (fst x) (fst ` {y \<in> set xs. write (snd y) = WriteThrows})"
      by simp
    have "keepalive_entry write st x =
            st\<lparr>sseStreams := Map_delete (sseStreams st) (fst x),
               sessionActivity := Map_delete (sessionActivity st) (fst x)\<rparr>"
      using True by (simp add: keepalive_entry_def)
    then show ?thesis
      unfolding D
      by (simp add: Cons.IH Map_delete_def conj_commute)
  next
    case False
    then have "{y \<in> set (x # xs). write (snd y) = WriteThrows}
            = {y \<in> set xs. write (snd y) = WriteThrows}"
      by auto
    moreover have "keepalive_entry write st x = st"
      using False by (cases "write (snd x)") (simp_all add: keepalive_entry_def)
    ultimately show ?thesis
      by (simp add: Cons.IH)
  qed
qed

lemma keepalive_sweep_frame:
  "transports (keepalive_sweep write st) = transports st"
  "mcpServers (keepalive_sweep write st) = mcpServers st"
  by (simp_all add: keepalive_sweep_def keepalive_fold)

lemma keepalive_sweep_lookup:
  assumes "dead = fst ` {x \<in> set (sseStreams st). write (snd x) = WriteThrows}"
  shows "Map_get (sseStreams (keepalive_sweep write st)) k
           = (if k \<in> dead then None else Map_get (sseStreams st) k)"
    and "Map_get (sessionActivity (keepalive_sweep write st)) k
           = (if k \<in> dead then None else Map_get (sessionActivity st) k)"
  unfolding assms by (simp_all add: keepalive_sweep_def keepalive_fold Map_get_filter_keys)

lemma dead_iff:
  assumes "distinct (map fst (sseStreams st))" and "Map_get (sseStreams st) sid = Some s"
  shows "sid \<in> fst ` {x \<in> set (sseStreams st). write (snd x) = WriteThrows}
           \<longleftrightarrow> write s = WriteThrows"
proof
  assume "sid \<in> fst ` {x \<in> set (sseStreams st). write (snd x) = WriteThrows}"
  then obtain s' where "(sid, s') \<in> set (sseStreams st)" and w: "write s' = WriteThrows"
    by auto
  then have "Map_get (sseStreams st) sid = Some s'"
    using assms(1) by (simp add: distinct_keys_get)
  with assms(2) w show "write s = WriteThrows" by simp
next
  assume "write s = WriteThrows"
  moreover have "(sid, s) \<in> set (sseStreams st)"
    using assms by (simp add: distinct_keys_get)
  ultimately show "sid \<in> fst ` {x \<in> set (sseStreams st). write (snd x) = WriteThrows}"
    by force
qed

text \<open>
  C1 (as stated, refuted): a keepalive write rejected with backpressure leaves the
  stream reference registered, and a keepalive write that throws removes the session's
  activity record together with the stream reference.
\<close>

theorem C1_counterexample:
  "Map_get (sseStreams registry_one) ''s1'' = Some (Stream 1) \<and>
   write_backpressure (Stream 1) = Backpressure \<and>
   Map_get (sseStreams (keepalive_sweep write_backpressure registry_one)) ''s1''
     = Some (Stream 1) \<and>
   write_throws (Stream 1) = WriteThrows \<and>
   Map_get (sessionActivity registry_one) ''s1'' = Some 1000 \<and>
   Map_get (sessionActivity (keepalive_sweep write_throws registry_one)) ''s1'' = None"
  by (simp add: registry_one_def keepalive_sweep_def keepalive_entry_def
        write_backpressure_def write_throws_def Map_get_def Map_delete_def)

text \<open>
  C1 (amended): for every session with a registered open event stream: if the keepalive
  write to that stream raises an exception, the sweep removes that session's stream
  reference and its activity record; if the write returns (true, or false for
  backpressure), the session's stream reference and activity record are unchanged. In
  every case the transport and handler registrations of all sessions are unchanged, so
  the session is not closed, and handling one failed entry changes nothing of any other
  session.
\<close>

theorem C1_keepalive_failure:
  assumes "distinct (map fst (sseStreams st))"
    and "Map_get (sseStreams st) sid = Some s"
    and "st' = keepalive_sweep write st"
  shows "transports st' = transports st \<and> mcpServers st' = mcpServers st \<and>
         (write s = WriteThrows \<longrightarrow>
            Map_get (sseStreams st') sid = None \<and> Map_get (sessionActivity st') sid = None) \<and>
         (write s = Backpressure \<or> write s = Written \<longrightarrow>
            Map_get (sseStreams st') sid = Some s \<and>
            Map_get (sessionActivity st') sid = Map_get (sessionActivity st) sid) \<and>
         (\<forall>k. k \<noteq> sid \<longrightarrow>
            Map_get (sseStreams (keepalive_entry write st (sid, s))) k
              = Map_get (sseStreams st) k \<and>
            Map_get (sessionActivity (keepalive_entry write st (sid, s))) k
              = Map_get (sessionActivity st) k \<and>
            Map_get (transports (keepalive_entry write st (sid, s))) k
              = Map_get (transports st) k \<and>
            Map_get (mcpServers (keepalive_entry write st (sid, s))) k
              = Map_get (mcpServers st) k)"
proof -
  note look = keepalive_sweep_lookup [OF refl, of "write" st sid]
  note dead = dead_iff [OF assms(1,2), of "write"]
  have frame: "transports st' = transports st \<and> mcpServers st' = mcpServers st"
    by (simp add: assms(3) keepalive_sweep_frame)
  have thrown: "Map_get (sseStreams st') sid = None \<and> Map_get (sessionActivity st') sid = None"
    if "write s = WriteThrows"
    using that dead look by (simp add: assms(3))
  have returned: "Map_get (sseStreams st') sid = Some s \<and>
            Map_get (sessionActivity st') sid = Map_get (sessionActivity st) sid"
    if "write s = Backpressure \<or> write s = Written"
  proof -
    from that have "write s \<noteq> WriteThrows" by auto
    then show ?thesis using dead look assms(2) by (simp add: assms(3))
  qed
  have others: "Map_get (sseStreams (keepalive_entry write st (sid, s))) k
              = Map_get (sseStreams st) k \<and>
            Map_get (sessionActivity (keepalive_entry write st (sid, s))) k
              = Map_get (sessionActivity st) k \<and>
            Map_get (transports (keepalive_entry write st (sid, s))) k
              = Map_get (transports st) k \<and>
            Map_get (mcpServers (keepalive_entry write st (sid, s))) k
              = Map_get (mcpServers st) k"
    if "k \<noteq> sid" for k
    using that by (cases "write s") (simp_all add: keepalive_entry_def Map_get_delete)
  from frame thrown returned others show ?thesis by blast
qed

theorem C1_keepalive_failure_witness:
  "distinct (map fst (sseStreams registry_one)) \<and>
   Map_get (sseStreams registry_one) ''s1'' = Some (Stream 1) \<and>
   transports (keepalive_sweep write_throws registry_one) = transports registry_one \<and>
   mcpServers (keepalive_sweep write_throws registry_one) = mcpServers registry_one \<and>
   Map_get (sseStreams (keepalive_sweep write_throws registry_one)) ''s1'' = None \<and>
   Map_get (sessionActivity (keepalive_sweep write_throws registry_one)) ''s1'' = None \<and>
   Map_get (sseStreams (keepalive_sweep write_backpressure registry_one)) ''s1''
     = Some (Stream 1) \<and>
   Map_get (sessionActivity (keepalive_sweep write_backpressure registry_one)) ''s1''
     = Map_get (sessionActivity registry_one) ''s1''"
proof -
  have d: "distinct (map fst (sseStreams registry_one))"
    by (simp add: registry_one_def)
  have g: "Map_get (sseStreams registry_one) ''s1'' = Some (Stream 1)"
    by (simp add: registry_one_def Map_get_def)
  show ?thesis
    using C1_keepalive_failure [OF d g refl, of write_throws]
      C1_keepalive_failure [OF d g refl, of write_backpressure] d g
    by (simp add: write_throws_def write_backpressure_def)
qed

text \<open>The prune loop, entry by entry.\<close>

lemma prune_fold_state:
  "fst (foldl (prune_entry now) acc xs) =
     (fst acc)\<lparr>transports :=
          filter (\<lambda>e. fst e \<notin> fst ` {x \<in> set xs. now - snd x > sessionTtlMs})
            (transports (fst acc)),
        mcpServers :=
          filter (\<lambda>e. fst e \<notin> fst ` {x \<in> set xs. now - snd x > sessionTtlMs})
            (mcpServers (fst acc)),
        sseStreams :=
          filter (\<lambda>e. fst e \<notin> fst ` {x \<in> set xs. now - snd x > sessionTtlMs})
            (sseStreams (fst acc)),
        sessionActivity :=
          filter (\<lambda>e. fst e \<notin> fst ` {x \<in> set xs. now - snd x > sessionTtlMs})
            (sessionActivity (fst acc))\<rparr>"
proof (induction xs arbitrary: acc)
  case Nil
  then show ?case by simp
next
  case (Cons x xs)
  show ?case
  proof (cases "now - snd x > sessionTtlMs")
    case True
    have "{y \<in> set (x # xs). now - snd y > sessionTtlMs}
            = insert x {y \<in> set xs. now - snd y > sessionTtlMs}"
      using True by auto
    then have I: "fst ` {y \<in> set (x # xs). now - snd y > sessionTtlMs}
            = insert (fst x) (fst ` {y \<in> set xs. now - snd y > sessionTtlMs})"
      by simp
    have "fst (prune_entry now acc x) =
            (fst acc)\<lparr>transports := Map_delete (transports (fst acc)) (fst x),
               mcpServers := Map_delete (mcpServers (fst acc)) (fst x),
               sseStreams := Map_delete (sseStreams (fst acc)) (fst x),
               sessionActivity := Map_delete (sessionActivity (fst acc)) (fst x)\<rparr>"
      using True by (simp add: prune_entry_def Let_def)
    then show ?thesis
      unfolding I
      by (simp add: Cons.IH Map_delete_def conj_commute)
  next
    case False
    then have "{y \<in> set (x # xs). now - snd y > sessionTtlMs}
            = {y \<in> set xs. now - snd y > sessionTtlMs}"
      by auto
    moreover have "prune_entry now acc x = acc"
      using False by (simp add: prune_entry_def Let_def)
    ultimately show ?thesis
      by (simp add: Cons.IH)
  qed
qed

lemma prune_fold_ids:
  "map pruned_id (snd (foldl (prune_entry now) acc xs)) =
     map pruned_id (snd acc) @ map fst (filter (\<lambda>x. now - snd x > sessionTtlMs) xs)"
  by (induction xs arbitrary: acc) (simp_all add: prune_entry_def Let_def)

lemma prune_sweep_state:
  assumes "idle = fst ` {x \<in> set (sessionActivity st). now - snd x > sessionTtlMs}"
  shows "fst (prune_sweep now st) =
     st\<lparr>transports := filter (\<lambda>e. fst e \<notin> idle) (transports st),
        mcpServers := filter (\<lambda>e. fst e \<notin> idle) (mcpServers st),
        sseStreams := filter (\<lambda>e. fst e \<notin> idle) (sseStreams st),
        sessionActivity := filter (\<lambda>e. fst e \<notin> idle) (sessionActivity st)\<rparr>"
  unfolding assms by (simp add: prune_sweep_def prune_fold_state)

lemma prune_sweep_ids:
  "map pruned_id (snd (prune_sweep now st)) =
     map fst (filter (\<lambda>x. now - snd x > sessionTtlMs) (sessionActivity st))"
  by (simp add: prune_sweep_def prune_fold_ids)

lemma prune_sweep_absent:
  assumes "Map_get (sessionActivity st) sid = None"
  shows "sid \<notin> pruned_id ` set (snd (prune_sweep now st))"
    and "Map_get (transports (fst (prune_sweep now st))) sid = Map_get (transports st) sid"
    and "Map_get (mcpServers (fst (prune_sweep now st))) sid = Map_get (mcpServers st) sid"
    and "Map_get (sseStreams (fst (prune_sweep now st))) sid = Map_get (sseStreams st) sid"
    and "Map_get (sessionActivity (fst (prune_sweep now st))) sid = None"
proof -
  have out: "sid \<notin> fst ` {x \<in> set (sessionActivity st). now - snd x > sessionTtlMs}"
    using assms by (auto simp: Map_get_None_iff)
  have "set (map pruned_id (snd (prune_sweep now st)))
          = fst ` {x \<in> set (sessionActivity st). now - snd x > sessionTtlMs}"
    unfolding prune_sweep_ids by auto
  with out show "sid \<notin> pruned_id ` set (snd (prune_sweep now st))"
    by simp
  show "Map_get (transports (fst (prune_sweep now st))) sid = Map_get (transports st) sid"
    "Map_get (mcpServers (fst (prune_sweep now st))) sid = Map_get (mcpServers st) sid"
    "Map_get (sseStreams (fst (prune_sweep now st))) sid = Map_get (sseStreams st) sid"
    "Map_get (sessionActivity (fst (prune_sweep now st))) sid = None"
    using out assms by (simp_all add: prune_sweep_state [OF refl] Map_get_filter_keys)
qed

lemma prune_sweep_idle:
  assumes "Map_get (sessionActivity st) sid = Some lastSeen" and "now - lastSeen > sessionTtlMs"
  shows "Map_get (transports (fst (prune_sweep now st))) sid = None"
    and "Map_get (mcpServers (fst (prune_sweep now st))) sid = None"
    and "Map_get (sseStreams (fst (prune_sweep now st))) sid = None"
    and "Map_get (sessionActivity (fst (prune_sweep now st))) sid = None"
proof -
  have "(sid, lastSeen) \<in> set (sessionActivity st)"
    using assms(1) by (simp add: Map_get_def map_of_SomeD)
  then have "sid \<in> fst ` {x \<in> set (sessionActivity st). now - snd x > sessionTtlMs}"
    using assms(2) by force
  then show "Map_get (transports (fst (prune_sweep now st))) sid = None"
    "Map_get (mcpServers (fst (prune_sweep now st))) sid = None"
    "Map_get (sseStreams (fst (prune_sweep now st))) sid = None"
    "Map_get (sessionActivity (fst (prune_sweep now st))) sid = None"
    by (simp_all add: prune_sweep_state [OF refl] Map_get_filter_keys)
qed

lemma one_entry_per_key:
  "distinct (map fst xs) \<Longrightarrow> (k, v) \<in> set xs \<Longrightarrow>
     length (filter (\<lambda>e. fst e = k) xs) = 1"
proof (induction xs)
  case Nil
  then show ?case by simp
next
  case (Cons x xs)
  show ?case
  proof (cases "fst x = k")
    case True
    have "fst e \<noteq> k" if "e \<in> set xs" for e
      using that True Cons.prems(1) by (auto simp: image_iff)
    then have "filter (\<lambda>e. fst e = k) xs = []"
      by (simp add: filter_empty_conv)
    with True show ?thesis by simp
  next
    case False
    with Cons show ?thesis by auto
  qed
qed

lemma prune_sweep_once:
  assumes "distinct (map fst (sessionActivity st))"
    and "Map_get (sessionActivity st) sid = Some lastSeen" and "now - lastSeen > sessionTtlMs"
  shows "length (filter (\<lambda>p. pruned_id p = sid) (snd (prune_sweep now st))) = 1"
proof -
  let ?idle = "filter (\<lambda>x. now - snd x > sessionTtlMs) (sessionActivity st)"
  have "(sid, lastSeen) \<in> set (sessionActivity st)"
    using assms(2) by (simp add: Map_get_def map_of_SomeD)
  then have "(sid, lastSeen) \<in> set ?idle"
    using assms(3) by simp
  moreover have "distinct (map fst ?idle)"
    using assms(1) by (simp add: distinct_map_filter)
  ultimately have one: "length (filter (\<lambda>e. fst e = sid) ?idle) = 1"
    by (rule one_entry_per_key [rotated])
  have "length (filter (\<lambda>p. pruned_id p = sid) (snd (prune_sweep now st)))
          = length (filter (\<lambda>k. k = sid) (map pruned_id (snd (prune_sweep now st))))"
    by (simp add: filter_map comp_def)
  also have "\<dots> = length (filter (\<lambda>k. k = sid) (map fst ?idle))"
    by (simp only: prune_sweep_ids)
  also have "\<dots> = length (filter (\<lambda>e. fst e = sid) ?idle)"
    by (simp add: filter_map comp_def)
  finally show ?thesis using one by simp
qed

lemma prune_fold_nothing_idle:
  "\<forall>x \<in> set xs. \<not> now - snd x > sessionTtlMs \<Longrightarrow> foldl (prune_entry now) acc xs = acc"
  by (induction xs arbitrary: acc) (simp_all add: prune_entry_def Let_def)

lemma prune_sweep_again:
  "prune_sweep now (fst (prune_sweep now st)) = (fst (prune_sweep now st), [])"
proof -
  let ?idle = "fst ` {x \<in> set (sessionActivity st). now - snd x > sessionTtlMs}"
  let ?left = "filter (\<lambda>e. fst e \<notin> ?idle) (sessionActivity st)"
  have act: "sessionActivity (fst (prune_sweep now st)) = ?left"
    by (simp add: prune_sweep_state [OF refl])
  have "\<forall>x \<in> set ?left. \<not> now - snd x > sessionTtlMs"
    by force
  then have "foldl (prune_entry now) (fst (prune_sweep now st), []) ?left
               = (fst (prune_sweep now st), [])"
    by (rule prune_fold_nothing_idle)
  then show ?thesis
    unfolding prune_sweep_def [of now "fst (prune_sweep now st)"] act .
qed

lemma teardowns_agree:
  "stream_closed sid st = delete_cleanup sid st"
  "onsessionclosed sid st = delete_cleanup sid st"
  by (simp_all add: stream_closed_def onsessionclosed_def delete_cleanup_def Let_def)

lemma delete_cleanup_lookup:
  "Map_get (transports (delete_cleanup sid st)) k
     = (if k = sid then None else Map_get (transports st) k)"
  "Map_get (mcpServers (delete_cleanup sid st)) k
     = (if k = sid then None else Map_get (mcpServers st) k)"
  "Map_get (sseStreams (delete_cleanup sid st)) k
     = (if k = sid then None else Map_get (sseStreams st) k)"
  "Map_get (sessionActivity (delete_cleanup sid st)) k
     = (if k = sid then None else Map_get (sessionActivity st) k)"
  by (simp_all add: delete_cleanup_def Map_get_delete)

lemma delete_cleanup_absent:
  assumes "Map_get (transports st) sid = None" and "Map_get (mcpServers st) sid = None"
    and "Map_get (sseStreams st) sid = None" and "Map_get (sessionActivity st) sid = None"
  shows "delete_cleanup sid st = st"
  using assms by (simp add: delete_cleanup_def Map_delete_absent)

lemma delete_cleanup_idem: "delete_cleanup sid (delete_cleanup sid st) = delete_cleanup sid st"
  by (rule delete_cleanup_absent) (simp_all add: delete_cleanup_lookup)

lemma delete_request:
  assumes "Map_get (transports st) sid = Some tr" and "sid \<noteq> []"
  shows "snd (mcp_endpoint handleRequest fresh now (req_delete sid) st) = delete_cleanup sid st"
  using assms
  by (simp add: mcp_endpoint_def hand_over_def track_def req_delete_def Let_def
      split: handled.splits)

lemma delete_request_again:
  assumes "sid \<noteq> []"
  shows "mcp_endpoint handleRequest fresh now (req_delete sid) (delete_cleanup sid st)
           = (Replied (invalidSession JNull), delete_cleanup sid st)"
  using assms
  by (simp add: mcp_endpoint_def req_delete_def Let_def delete_cleanup_lookup js_opt_prop_def
        coalesce_def)

lemma tick_orphan:
  assumes "Map_get (sessionActivity st) sid = None"
  shows "sid \<notin> pruned_id ` set (snd (tick write now st))"
    and "Map_get (transports (fst (tick write now st))) sid = Map_get (transports st) sid"
    and "Map_get (mcpServers (fst (tick write now st))) sid = Map_get (mcpServers st) sid"
    and "Map_get (sessionActivity (fst (tick write now st))) sid = None"
proof -
  have gone: "Map_get (sessionActivity (keepalive_sweep write st)) sid = None"
    using assms by (simp add: keepalive_sweep_lookup(2) [OF refl])
  show "sid \<notin> pruned_id ` set (snd (tick write now st))"
    "Map_get (transports (fst (tick write now st))) sid = Map_get (transports st) sid"
    "Map_get (mcpServers (fst (tick write now st))) sid = Map_get (mcpServers st) sid"
    "Map_get (sessionActivity (fst (tick write now st))) sid = None"
    using prune_sweep_absent [OF gone, of now]
    by (simp_all add: tick_def keepalive_sweep_frame)
qed

lemma keepalive_keeps_activity:
  assumes "\<forall>s. (sid, s) \<in> set (sseStreams st) \<longrightarrow> w s \<noteq> WriteThrows"
  shows "Map_get (sessionActivity (keepalive_sweep w st)) sid = Map_get (sessionActivity st) sid"
proof -
  have "sid \<notin> fst ` {x \<in> set (sseStreams st). w (snd x) = WriteThrows}"
    using assms by force
  then show ?thesis
    by (simp add: keepalive_sweep_lookup(2) [OF refl])
qed

lemma keepalive_keeps_distinct:
  "distinct (map fst (sessionActivity st)) \<Longrightarrow>
     distinct (map fst (sessionActivity (keepalive_sweep w st)))"
  by (simp add: keepalive_sweep_def keepalive_fold distinct_map_filter)

text \<open>
  C9 (as stated, refuted): a session idle for far longer than the threshold when the
  timer fires, whose keepalive write throws in that firing, is not destroyed by the
  sweep of that firing, nor by the sweep of a later one: its activity record is gone
  before the prune loop starts, and its transport and server stay registered.
\<close>

theorem C9_counterexample:
  "Map_get (sessionActivity registry_one) ''s1'' = Some 1000 \<and>
   900000000 - 1000 > sessionTtlMs \<and>
   write_throws (Stream 1) = WriteThrows \<and>
   snd (tick write_throws 900000000 registry_one) = [] \<and>
   Map_get (transports (fst (tick write_throws 900000000 registry_one))) ''s1''
     = Some (Transport 1) \<and>
   Map_get (mcpServers (fst (tick write_throws 900000000 registry_one))) ''s1''
     = Some (Server 1) \<and>
   snd (tick write_backpressure 990000000 (fst (tick write_throws 900000000 registry_one))) = []"
proof -
  let ?orphan = "registry_one\<lparr>sseStreams := [], sessionActivity := []\<rparr>"
  have first: "tick write_throws 900000000 registry_one = (?orphan, [])"
    by (simp add: tick_def registry_one_def keepalive_sweep_def keepalive_entry_def
          write_throws_def Map_delete_def prune_sweep_def)
  have second: "tick write_backpressure 990000000 ?orphan = (?orphan, [])"
    by (simp add: tick_def registry_one_def keepalive_sweep_def prune_sweep_def)
  have idle: "Map_get (sessionActivity registry_one) ''s1'' = Some 1000"
    "900000000 - 1000 > sessionTtlMs" "write_throws (Stream 1) = WriteThrows"
    by (simp_all add: registry_one_def Map_get_def sessionTtlMs_def write_throws_def)
  show ?thesis
    unfolding first using idle
    by (simp add: second) (simp add: registry_one_def Map_get_def)
qed

text \<open>
  C9 (amended): the three teardowns (the DELETE branch, the stream-close handler, the
  session-closed callback) are the same function of the registry, and applying any of
  them after any other, or after an idle sweep that destroyed the session, changes
  nothing; none of them has a failing branch. A second DELETE request is answered with
  InvalidSession and leaves the registry as it is. A session whose \<open>lastSeen\<close> is older
  than the threshold when the prune loop runs is torn down exactly once by that loop; a
  second run at the same instant changes nothing and tears nothing down, and no later
  run, nor a run after a teardown, tears the session down again. The same holds of whole
  firings of the timer in which the keepalive write to the session's stream, if it has
  one, does not throw, so that its activity record is still there when the prune loop of
  the firing starts.
\<close>

theorem C9_idempotent_destroy:
  assumes "teardown \<in> {delete_cleanup, stream_closed, onsessionclosed}"
    and "again \<in> {delete_cleanup, stream_closed, onsessionclosed}"
    and "distinct (map fst (sessionActivity st))"
    and "Map_get (sessionActivity st) sid = Some lastSeen"
    and "now - lastSeen > sessionTtlMs"
    and "swept = fst (prune_sweep now st)"
  shows "again sid (teardown sid st0) = teardown sid st0 \<and>
         sid \<notin> pruned_id ` set (snd (prune_sweep now' (teardown sid st0))) \<and>
         Map_get (transports (fst (prune_sweep now' (teardown sid st0)))) sid = None \<and>
         Map_get (mcpServers (fst (prune_sweep now' (teardown sid st0)))) sid = None \<and>
         Map_get (sseStreams (fst (prune_sweep now' (teardown sid st0)))) sid = None \<and>
         Map_get (sessionActivity (fst (prune_sweep now' (teardown sid st0)))) sid = None \<and>
         (\<forall>tr. Map_get (transports st0) sid = Some tr \<and> sid \<noteq> [] \<longrightarrow>
            snd (mcp_endpoint handleRequest fresh now' (req_delete sid) st0)
              = delete_cleanup sid st0 \<and>
            mcp_endpoint handleRequest fresh now' (req_delete sid) (delete_cleanup sid st0)
              = (Replied (invalidSession JNull), delete_cleanup sid st0)) \<and>
         length (filter (\<lambda>p. pruned_id p = sid) (snd (prune_sweep now st))) = 1 \<and>
         Map_get (transports swept) sid = None \<and> Map_get (mcpServers swept) sid = None \<and>
         Map_get (sseStreams swept) sid = None \<and> Map_get (sessionActivity swept) sid = None \<and>
         prune_sweep now swept = (swept, []) \<and>
         sid \<notin> pruned_id ` set (snd (prune_sweep now' swept)) \<and>
         again sid swept = swept \<and>
         ((\<forall>s. (sid, s) \<in> set (sseStreams st) \<longrightarrow> w s \<noteq> WriteThrows) \<longrightarrow>
            length (filter (\<lambda>p. pruned_id p = sid) (snd (tick w now st))) = 1 \<and>
            sid \<notin> pruned_id ` set (snd (tick w' now' (fst (tick w now st)))))"
proof -
  have t: "teardown sid s = delete_cleanup sid s" for s
    using assms(1) by (auto simp: teardowns_agree)
  have a: "again sid s = delete_cleanup sid s" for s
    using assms(2) by (auto simp: teardowns_agree)
  have repeat: "again sid (teardown sid st0) = teardown sid st0"
    by (simp add: t a delete_cleanup_idem)
  have torn: "Map_get (sessionActivity (teardown sid st0)) sid = None"
    by (simp add: t delete_cleanup_lookup)
  then have after_teardown: "sid \<notin> pruned_id ` set (snd (prune_sweep now' (teardown sid st0)))"
    by (rule prune_sweep_absent(1))
  have still_gone:
    "Map_get (transports (fst (prune_sweep now' (teardown sid st0)))) sid = None"
    "Map_get (mcpServers (fst (prune_sweep now' (teardown sid st0)))) sid = None"
    "Map_get (sseStreams (fst (prune_sweep now' (teardown sid st0)))) sid = None"
    "Map_get (sessionActivity (fst (prune_sweep now' (teardown sid st0)))) sid = None"
    using prune_sweep_absent(2-5) [OF torn, of now']
    by (simp_all add: t delete_cleanup_lookup)
  have request: "snd (mcp_endpoint handleRequest fresh now' (req_delete sid) st0)
              = delete_cleanup sid st0 \<and>
            mcp_endpoint handleRequest fresh now' (req_delete sid) (delete_cleanup sid st0)
              = (Replied (invalidSession JNull), delete_cleanup sid st0)"
    if "Map_get (transports st0) sid = Some tr \<and> sid \<noteq> []" for tr
    using that by (simp add: delete_request [where tr = tr] delete_request_again)
  note once = prune_sweep_once [OF assms(3,4,5)]
  note gone = prune_sweep_idle [OF assms(4,5), folded assms(6)]
  have twice: "prune_sweep now swept = (swept, [])"
    unfolding assms(6) by (rule prune_sweep_again)
  have later: "sid \<notin> pruned_id ` set (snd (prune_sweep now' swept))"
    using gone(4) by (rule prune_sweep_absent(1))
  have noop: "again sid swept = swept"
    unfolding a using gone by (rule delete_cleanup_absent)
  have firing: "length (filter (\<lambda>p. pruned_id p = sid) (snd (tick w now st))) = 1 \<and>
            sid \<notin> pruned_id ` set (snd (tick w' now' (fst (tick w now st))))"
    if quiet: "\<forall>s. (sid, s) \<in> set (sseStreams st) \<longrightarrow> w s \<noteq> WriteThrows"
  proof -
    let ?k = "keepalive_sweep w st"
    have d: "distinct (map fst (sessionActivity ?k))"
      using assms(3) by (rule keepalive_keeps_distinct)
    have g: "Map_get (sessionActivity ?k) sid = Some lastSeen"
      using keepalive_keeps_activity [OF quiet] assms(4) by simp
    have one: "length (filter (\<lambda>p. pruned_id p = sid) (snd (tick w now st))) = 1"
      using prune_sweep_once [OF d g assms(5)] by (simp add: tick_def)
    have "Map_get (sessionActivity (fst (tick w now st))) sid = None"
      using prune_sweep_idle(4) [OF g assms(5)] by (simp add: tick_def)
    then have "sid \<notin> pruned_id ` set (snd (tick w' now' (fst (tick w now st))))"
      by (rule tick_orphan(1))
    with one show ?thesis by simp
  qed
  show ?thesis
    using repeat after_teardown still_gone request once gone twice later noop firing
    by blast
qed

theorem C9_idempotent_destroy_witness:
  "distinct (map fst (sessionActivity registry_one)) \<and>
   Map_get (sessionActivity registry_one) ''s1'' = Some 1000 \<and>
   301001 - 1000 > sessionTtlMs \<and>
   delete_cleanup ''s1'' (stream_closed ''s1'' registry_one) = stream_closed ''s1'' registry_one \<and>
   length (filter (\<lambda>p. pruned_id p = ''s1'') (snd (prune_sweep 301001 registry_one))) = 1 \<and>
   prune_sweep 301001 (fst (prune_sweep 301001 registry_one))
     = (fst (prune_sweep 301001 registry_one), []) \<and>
   onsessionclosed ''s1'' (fst (prune_sweep 301001 registry_one))
     = fst (prune_sweep 301001 registry_one) \<and>
   length (filter (\<lambda>p. pruned_id p = ''s1'') (snd (tick write_backpressure 301001 registry_one)))
     = 1 \<and>
   ''s1'' \<notin> pruned_id ` set (snd (tick write_backpressure 301002
                                   (fst (tick write_backpressure 301001 registry_one))))"
proof -
  have t: "stream_closed \<in> {delete_cleanup, stream_closed, onsessionclosed}" by simp
  have a: "delete_cleanup \<in> {delete_cleanup, stream_closed, onsessionclosed}" by simp
  have c: "onsessionclosed \<in> {delete_cleanup, stream_closed, onsessionclosed}" by simp
  have d: "distinct (map fst (sessionActivity registry_one))"
    by (simp add: registry_one_def)
  have g: "Map_get (sessionActivity registry_one) ''s1'' = Some 1000"
    by (simp add: registry_one_def Map_get_def)
  have i: "301001 - 1000 > sessionTtlMs"
    by (simp add: sessionTtlMs_def)
  have w: "\<forall>s. (''s1'', s) \<in> set (sseStreams registry_one) \<longrightarrow> write_backpressure s \<noteq> WriteThrows"
    by (simp add: write_backpressure_def)
  show ?thesis
    using C9_idempotent_destroy [OF t a d g i refl, of registry_one]
      C9_idempotent_destroy [OF t c d g i refl, of registry_one]
      C9_idempotent_destroy [OF t c d g i refl, where w = write_backpressure
        and w' = write_backpressure and now' = 301002] d g i w
    by simp
qed

section \<open>The registry over time: results\<close>

lemma keys_Map_set: "fst ` set (Map_set m k v) = insert k (fst ` set m)"
  by (induction m k v rule: Map_set.induct) auto

lemma distinct_Map_set: "distinct (map fst m) \<Longrightarrow> distinct (map fst (Map_set m k v))"
  by (induction m k v rule: Map_set.induct) (auto simp: keys_Map_set)

lemma distinct_Map_delete: "distinct (map fst m) \<Longrightarrow> distinct (map fst (Map_delete m k))"
  by (simp add: Map_delete_def distinct_map_filter)

lemma wf_empty: "wf_registry empty_registry"
  by (simp add: wf_registry_def empty_registry_def)

lemma wf_delete_cleanup: "wf_registry st \<Longrightarrow> wf_registry (delete_cleanup sid st)"
  by (simp add: wf_registry_def delete_cleanup_def distinct_Map_delete)

lemma wf_track: "wf_registry st \<Longrightarrow> wf_registry (track now req st)"
  using wf_delete_cleanup [of st]
  by (auto simp: track_def Let_def wf_registry_def distinct_Map_set split: option.splits)

lemma endpoint_state:
  "snd (mcp_endpoint handleRequest fresh now req st) = st \<or>
   snd (mcp_endpoint handleRequest fresh now req st) = track now req st"
  by (auto simp: mcp_endpoint_def hand_over_def Let_def split: option.splits handled.splits)

lemma serve_state:
  "snd (serve_mcp handleRequest fresh now req st) = st \<or>
   snd (serve_mcp handleRequest fresh now req st) = track now req st"
  using endpoint_state [of handleRequest fresh now req st]
  by (cases "salesforceOAuthMiddleware req") (simp_all add: serve_mcp_def)

lemma wf_tick: "wf_registry st \<Longrightarrow> wf_registry (fst (tick write now st))"
  by (simp add: wf_registry_def tick_def prune_sweep_state [OF refl] keepalive_sweep_def
        keepalive_fold distinct_map_filter)

lemma wf_step: "wf_registry st \<Longrightarrow> wf_registry (step ev st)"
proof (cases ev)
  case (Tick w now)
  assume "wf_registry st"
  then show ?thesis using Tick by (simp add: wf_tick)
next
  case (Request handleRequest fresh now req)
  assume "wf_registry st"
  then show ?thesis
    using Request serve_state [of handleRequest fresh now req st] wf_track [of st now req]
    by auto
next
  case (Initialized newSessionId created tr now)
  assume "wf_registry st"
  then show ?thesis
    using Initialized
    by (cases created) (simp_all add: onsessioninitialized_def wf_registry_def distinct_Map_set)
next
  case (SessionClosed sid)
  assume "wf_registry st"
  then show ?thesis
    using SessionClosed by (simp add: teardowns_agree wf_delete_cleanup)
next
  case (StreamClosed sid)
  assume "wf_registry st"
  then show ?thesis
    using StreamClosed by (simp add: teardowns_agree wf_delete_cleanup)
qed

lemma wf_run: "wf_registry st \<Longrightarrow> wf_registry (run evs st)"
  unfolding run_def by (induction evs arbitrary: st) (simp_all add: wf_step)

lemma wf_reachable: "wf_registry (run evs empty_registry)"
  by (simp add: wf_run wf_empty)













end
